theory Spec2Isabelle
  imports Complex_Main
begin

section \<open>Python values, exceptions and built-ins used by the recall scorer\<close>

text \<open>
  The model follows \<^verbatim>\<open>src/sae_auto_interp/scorers/recall/recall.py\<close>.
  The free text a backend sends back is a Python \<^verbatim>\<open>str\<close>, modelled as the list of its
  Unicode code points, since \<^verbatim>\<open>query\<close> reads its last character and \<^verbatim>\<open>int()\<close>
  accepts decimal digits of every script. Sample texts, prompts and field names, of which
  only ASCII literals are inspected, are \<^typ>\<open>string\<close>. Every exception the source can
  raise is a value of \<open>py_error\<close>; an exception coming out of the backend client is
  \<open>BackendError\<close>.
\<close>

datatype py_error = KeyError | ValueError | IndexError | TypeError | BackendError

text \<open>
  Values found in a decoded JSON response, and in the dictionary built by
  \<^verbatim>\<open>Sample.default\<close>: \<^verbatim>\<open>None\<close>, booleans, integers and strings.
  Floating-point numbers and nested values are left out.
\<close>

datatype pyval = PyNone | PyBool bool | PyInt int | PyStr string

text \<open>The comparison \<^verbatim>\<open>v == 1\<close>: \<^verbatim>\<open>True == 1\<close> holds in Python, a string or
  \<^verbatim>\<open>None\<close> never equals 1.\<close>

fun py_eq_one :: "pyval \<Rightarrow> bool" where
  "py_eq_one (PyInt n) = (n = 1)"
| "py_eq_one (PyBool b) = b"
| "py_eq_one (PyStr s) = False"
| "py_eq_one PyNone = False"

text \<open>\<^verbatim>\<open>str(i)\<close> of a non-negative integer, as the f-strings render an index.\<close>

function str_nat :: "nat \<Rightarrow> string" where
  "str_nat n =
     (if n < 10 then [''0123456789'' ! n]
      else str_nat (n div 10) @ [''0123456789'' ! (n mod 10)])"
  by pat_completeness auto
termination
  by (relation "measure id") auto

declare str_nat.simps [simp del]

text \<open>A Python \<^verbatim>\<open>str\<close> as its code points, and the code points of an ASCII literal.\<close>

type_synonym pystr = "nat list"

definition codepoints :: "string \<Rightarrow> pystr" where
  "codepoints s = map of_char s"

text \<open>\<^verbatim>\<open>s[-1]\<close> on a string: the last character, \<^verbatim>\<open>IndexError\<close> on the empty string.\<close>

definition str_last :: "pystr \<Rightarrow> py_error + nat" where
  "str_last s = (case s of [] \<Rightarrow> Inl IndexError | _ # _ \<Rightarrow> Inr (last s))"

text \<open>
  The characters with a decimal digit value (Unicode category Nd; Unicode 14.0, as in
  CPython 3.11): 66 runs of ten consecutive code points with the values 0 to 9, listed by
  the code point of each run's zero. They are the 660 characters \<open>c\<close> for which
  \<^verbatim>\<open>int(c)\<close> returns a value.
\<close>

definition decimal_zeros :: "nat list" where
  "decimal_zeros =
     [0x30, 0x660, 0x6F0, 0x7C0, 0x966, 0x9E6, 0xA66, 0xAE6, 0xB66, 0xBE6, 0xC66, 0xCE6,
      0xD66, 0xDE6, 0xE50, 0xED0, 0xF20, 0x1040, 0x1090, 0x17E0, 0x1810, 0x1946, 0x19D0,
      0x1A80, 0x1A90, 0x1B50, 0x1BB0, 0x1C40, 0x1C50, 0xA620, 0xA8D0, 0xA900, 0xA9D0,
      0xA9F0, 0xAA50, 0xABF0, 0xFF10, 0x104A0, 0x10D30, 0x11066, 0x110F0, 0x11136,
      0x111D0, 0x112F0, 0x11450, 0x114D0, 0x11650, 0x116C0, 0x11730, 0x118E0, 0x11950,
      0x11C50, 0x11D50, 0x11DA0, 0x16A60, 0x16AC0, 0x16B50, 0x1D7CE, 0x1D7D8, 0x1D7E2,
      0x1D7EC, 0x1D7F6, 0x1E140, 0x1E2F0, 0x1E950, 0x1FBF0]"

definition unicode_decimal :: "nat \<Rightarrow> nat option" where
  "unicode_decimal c =
     (case filter (\<lambda>z. z \<le> c \<and> c \<le> z + 9) decimal_zeros of
        [] \<Rightarrow> None
      | z # _ \<Rightarrow> Some (c - z))"

text \<open>\<^verbatim>\<open>int(c)\<close> of a one-character string: the decimal digit value of the character,
  \<^verbatim>\<open>ValueError\<close> for a character that has none (a sign, a space, a letter).\<close>

definition py_int_char :: "nat \<Rightarrow> py_error + int" where
  "py_int_char c =
     (case unicode_decimal c of
        None \<Rightarrow> Inl ValueError
      | Some v \<Rightarrow> Inr (int v))"

text \<open>\<^verbatim>\<open>sep.join(strs)\<close>.\<close>

fun py_join :: "string \<Rightarrow> string list \<Rightarrow> string" where
  "py_join sep [] = []"
| "py_join sep [x] = x"
| "py_join sep (x # y # ys) = x @ sep @ py_join sep (y # ys)"

text \<open>\<^verbatim>\<open>range(start, stop, step)\<close>: \<^verbatim>\<open>ValueError\<close> when the step is zero.\<close>

function range_up :: "int \<Rightarrow> int \<Rightarrow> int \<Rightarrow> int list" where
  "range_up i stop step =
     (if 0 < step \<and> i < stop then i # range_up (i + step) stop step else [])"
  by pat_completeness auto
termination
  by (relation "measure (\<lambda>(i, stop, step). nat (stop - i))") auto

declare range_up.simps [simp del]

function range_down :: "int \<Rightarrow> int \<Rightarrow> int \<Rightarrow> int list" where
  "range_down i stop step =
     (if step < 0 \<and> stop < i then i # range_down (i + step) stop step else [])"
  by pat_completeness auto
termination
  by (relation "measure (\<lambda>(i, stop, step). nat (i - stop))") auto

declare range_down.simps [simp del]

definition py_range :: "int \<Rightarrow> int \<Rightarrow> int \<Rightarrow> py_error + int list" where
  "py_range start stop step =
     (if step = 0 then Inl ValueError
      else if 0 < step then Inr (range_up start stop step)
      else Inr (range_down start stop step))"

text \<open>The slice \<^verbatim>\<open>xs[i:j]\<close>: a negative bound counts from the end, and both bounds
  are clamped to the list.\<close>

definition py_slice :: "'a list \<Rightarrow> int \<Rightarrow> int \<Rightarrow> 'a list" where
  "py_slice xs i j =
     (let n = int (length xs);
          lo = (if i < 0 then max (i + n) 0 else min i n);
          hi = (if j < 0 then max (j + n) 0 else min j n)
      in take (nat (hi - lo)) (drop (nat lo) xs))"

section \<open>The data model\<close>

text \<open>A raw example carries its token ids; the tokenizer decodes them to text.\<close>

record example =
  tokens :: "int list"

record feature_record =
  random_examples :: "example list"

record scorer_input =
  record' :: feature_record
  test_examples :: "example list list"
  explanation :: string

text \<open>The dataclass \<^verbatim>\<open>Sample\<close>; \<^verbatim>\<open>predicted\<close> defaults to \<^verbatim>\<open>None\<close>.\<close>

record sample =
  text' :: string
  quantile :: int
  ground_truth :: bool
  predicted :: "bool option"

text \<open>
  A call of \<^verbatim>\<open>client.generate(prompt, schema=..., max_tokens=..., temperature=...)\<close>;
  \<open>schema = None\<close> is the call without the keyword.
\<close>

record 'j request =
  prompt :: string
  schema :: "'j option"
  req_max_tokens :: int
  req_temperature :: real

text \<open>What the backend sends back: a decoded JSON object or free text.\<close>

datatype response = Structured "string \<rightharpoonup> pyval" | Text pystr

text \<open>
  The attributes of a \<^verbatim>\<open>RecallScorer\<close>. The client and the tokenizer are external
  collaborators: the client is an oracle from the request to its answer or failure, the
  tokenizer is its \<^verbatim>\<open>decode\<close>.
\<close>

record 'j scorer =
  client :: "'j request \<Rightarrow> py_error + response"
  tokenizer :: "int list \<Rightarrow> string"
  echo :: bool
  temperature :: real
  max_tokens :: int
  batch_size :: int

text \<open>
  The functions \<^verbatim>\<open>recall.py\<close> imports from modules that are not part of the
  sources at hand (\<^verbatim>\<open>.prompt.prompt\<close>, \<^verbatim>\<open>clients.client.create_response_model\<close>
  and the response model's \<^verbatim>\<open>model_json_schema\<close>), taken as parameters.
\<close>

record ('m, 'j) deps =
  clean_prompt :: "string \<Rightarrow> string \<Rightarrow> bool \<Rightarrow> string"
  create_response_model :: "nat \<Rightarrow> 'm"
  model_json_schema :: "'m \<Rightarrow> 'j"

section \<open>Sample\<close>

text \<open>\<^verbatim>\<open>Sample._prepare_samples\<close>: the loop appends one fresh sample per example.\<close>

fun prepare_samples_loop ::
  "example list \<Rightarrow> int \<Rightarrow> bool \<Rightarrow> (int list \<Rightarrow> string) \<Rightarrow> sample list \<Rightarrow> sample list" where
  "prepare_samples_loop [] q g tok samples = samples"
| "prepare_samples_loop (e # es) q g tok samples =
     prepare_samples_loop es q g tok
       (samples @ [\<lparr>text' = tok (tokens e), quantile = q, ground_truth = g, predicted = None\<rparr>])"

definition prepare_samples ::
  "example list \<Rightarrow> int \<Rightarrow> bool \<Rightarrow> (int list \<Rightarrow> string) \<Rightarrow> sample list" where
  "prepare_samples examples q g tok = prepare_samples_loop examples q g tok []"

text \<open>\<^verbatim>\<open>Sample.default\<close>: the sample as a plain dictionary.\<close>

definition default' :: "sample \<Rightarrow> (string \<rightharpoonup> pyval)" where
  "default' s =
     [''text'' \<mapsto> PyStr (text' s),
      ''quantile'' \<mapsto> PyInt (quantile s),
      ''ground_truth'' \<mapsto> PyBool (ground_truth s),
      ''predicted'' \<mapsto> (case predicted s of None \<Rightarrow> PyNone | Some b \<Rightarrow> PyBool b)]"

section \<open>RecallScorer\<close>

subsection \<open>The sample assembler\<close>

text \<open>The loop of \<^verbatim>\<open>_prepare\<close> over \<^verbatim>\<open>enumerate(activating_examples)\<close>, from
  index \<open>i\<close> on.\<close>

fun extend_activating ::
  "example list list \<Rightarrow> nat \<Rightarrow> (int list \<Rightarrow> string) \<Rightarrow> sample list \<Rightarrow> sample list" where
  "extend_activating [] i tok samples = samples"
| "extend_activating (examples # rest) i tok samples =
     extend_activating rest (Suc i) tok
       (samples @ prepare_samples examples (int i + 1) True tok)"

text \<open>The flat list \<^verbatim>\<open>samples\<close> of \<^verbatim>\<open>_prepare\<close>, before it is cut into batches.\<close>

definition assemble :: "'j scorer \<Rightarrow> example list list \<Rightarrow> example list \<Rightarrow> sample list" where
  "assemble self activating_examples incorrect_examples =
     extend_activating activating_examples 0 (tokenizer self)
       (prepare_samples incorrect_examples (- 1) False (tokenizer self))"

text \<open>\<^verbatim>\<open>_prepare\<close>: the list comprehension over \<^verbatim>\<open>range(0, len(samples), batch_size)\<close>.\<close>

definition prepare ::
  "'j scorer \<Rightarrow> example list list \<Rightarrow> example list \<Rightarrow> py_error + sample list list" where
  "prepare self activating_examples incorrect_examples =
     (let samples = assemble self activating_examples incorrect_examples
      in case py_range 0 (int (length samples)) (batch_size self) of
           Inl e \<Rightarrow> Inl e
         | Inr starts \<Rightarrow> Inr (map (\<lambda>i. py_slice samples i (i + batch_size self)) starts))"

subsection \<open>The prompt builder\<close>

fun example_lines :: "nat \<Rightarrow> sample list \<Rightarrow> string list" where
  "example_lines i [] = []"
| "example_lines i (s # batch) =
     (''Example '' @ str_nat i @ '': '' @ text' s) # example_lines (Suc i) batch"

definition build_prompt :: "('m, 'j) deps \<Rightarrow> sample list \<Rightarrow> string \<Rightarrow> bool \<Rightarrow> string" where
  "build_prompt d batch expl batched =
     clean_prompt d expl (py_join [CHR 0x0A] (example_lines 0 batch)) batched"

subsection \<open>The query dispatcher\<close>

text \<open>
  What one call of \<^verbatim>\<open>query\<close> does: the exception it raises, if any (otherwise it
  returns the batch), the state of the batch's samples when it is over, the assignments to
  \<^verbatim>\<open>predicted\<close> it performed, in order, as (position in the batch, value), and the
  calls of the backend it issued.
\<close>

record 'j run =
  raised :: "py_error option"
  batch_after :: "sample list"
  writes :: "(nat \<times> bool) list"
  requests :: "'j request list"

text \<open>The field name \<^verbatim>\<open>f"example_{i}"\<close>.\<close>

definition example_key :: "nat \<Rightarrow> string" where
  "example_key i = ''example_'' @ str_nat i"

text \<open>
  The loop over \<^verbatim>\<open>enumerate(batch)\<close> of the batched branch, from index \<open>i\<close> on:
  a missing field raises \<^verbatim>\<open>KeyError\<close> and leaves the remaining samples untouched.
\<close>

fun set_predictions ::
  "(string \<rightharpoonup> pyval) \<Rightarrow> nat \<Rightarrow> sample list \<Rightarrow> py_error option \<times> sample list \<times> (nat \<times> bool) list" where
  "set_predictions selections i [] = (None, [], [])"
| "set_predictions selections i (s # rest) =
     (case selections (example_key i) of
        None \<Rightarrow> (Some KeyError, s # rest, [])
      | Some v \<Rightarrow>
          (case set_predictions selections (Suc i) rest of
             (e, rest', ws) \<Rightarrow>
               (e, s\<lparr>predicted := Some (py_eq_one v)\<rparr> # rest', (i, py_eq_one v) # ws)))"

text \<open>
  \<^verbatim>\<open>query\<close>. In the single-sample branch the right-hand side
  \<^verbatim>\<open>int(selections[-1]) == 1\<close> is evaluated before the target \<^verbatim>\<open>batch[0]\<close>.
  Indexing free text with a field name is a \<^verbatim>\<open>TypeError\<close>, indexing a JSON object
  with \<^verbatim>\<open>-1\<close> a \<^verbatim>\<open>KeyError\<close>.
\<close>

definition query :: "('m, 'j) deps \<Rightarrow> 'j scorer \<Rightarrow> sample list \<Rightarrow> string \<Rightarrow> 'j run" where
  "query d self batch expl =
     (let batched = (1 < length batch);
          p = build_prompt d batch expl batched;
          model = create_response_model d (length batch)
      in if batched then
           (let req = \<lparr>prompt = p, schema = Some (model_json_schema d model),
                       req_max_tokens = max_tokens self, req_temperature = temperature self\<rparr>
            in case client self req of
                 Inl e \<Rightarrow>
                   \<lparr>raised = Some e, batch_after = batch, writes = [], requests = [req]\<rparr>
               | Inr (Text t) \<Rightarrow>
                   \<lparr>raised = Some TypeError, batch_after = batch, writes = [], requests = [req]\<rparr>
               | Inr (Structured selections) \<Rightarrow>
                   (case set_predictions selections 0 batch of
                      (e, batch', ws) \<Rightarrow>
                        \<lparr>raised = e, batch_after = batch', writes = ws, requests = [req]\<rparr>))
         else
           (let req = \<lparr>prompt = p, schema = None,
                       req_max_tokens = max_tokens self, req_temperature = temperature self\<rparr>
            in case client self req of
                 Inl e \<Rightarrow>
                   \<lparr>raised = Some e, batch_after = batch, writes = [], requests = [req]\<rparr>
               | Inr (Structured selections) \<Rightarrow>
                   \<lparr>raised = Some KeyError, batch_after = batch, writes = [], requests = [req]\<rparr>
               | Inr (Text t) \<Rightarrow>
                   (case str_last t of
                      Inl e \<Rightarrow>
                        \<lparr>raised = Some e, batch_after = batch, writes = [], requests = [req]\<rparr>
                    | Inr c \<Rightarrow>
                        (case py_int_char c of
                           Inl e \<Rightarrow>
                             \<lparr>raised = Some e, batch_after = batch, writes = [],
                              requests = [req]\<rparr>
                         | Inr v \<Rightarrow>
                             (case batch of
                                [] \<Rightarrow>
                                  \<lparr>raised = Some IndexError, batch_after = batch, writes = [],
                                   requests = [req]\<rparr>
                              | s # rest \<Rightarrow>
                                  \<lparr>raised = None,
                                   batch_after = s\<lparr>predicted := Some (v = 1)\<rparr> # rest,
                                   writes = [(0, v = 1)], requests = [req]\<rparr>)))))"

text \<open>Replaying a log of assignments to \<^verbatim>\<open>predicted\<close> on a batch.\<close>

definition apply_write :: "sample list \<Rightarrow> nat \<times> bool \<Rightarrow> sample list" where
  "apply_write batch w = batch[fst w := (batch ! fst w)\<lparr>predicted := Some (snd w)\<rparr>]"

definition apply_writes :: "sample list \<Rightarrow> (nat \<times> bool) list \<Rightarrow> sample list" where
  "apply_writes batch ws = foldl apply_write batch ws"

subsection \<open>Joining the concurrent queries\<close>

text \<open>
  \<^verbatim>\<open>asyncio.gather(*tasks)\<close> without \<^verbatim>\<open>return_exceptions\<close>: the tasks finish in
  some order \<open>order\<close> (task indices, a permutation of \<open>[0..<length runs]\<close>); the first
  exception raised in that order is propagated, and when no task raises the results are
  listed in the order of the tasks, not in the order of completion.
\<close>

fun first_raised :: "nat list \<Rightarrow> 'j run list \<Rightarrow> py_error option" where
  "first_raised [] runs = None"
| "first_raised (i # order) runs =
     (if i < length runs then
        (case raised (runs ! i) of
           Some e \<Rightarrow> Some e
         | None \<Rightarrow> first_raised order runs)
      else first_raised order runs)"

definition gather :: "nat list \<Rightarrow> 'j run list \<Rightarrow> py_error + sample list list" where
  "gather order runs =
     (case first_raised order runs of
        Some e \<Rightarrow> Inl e
      | None \<Rightarrow> Inr (map batch_after runs))"

text \<open>The outcome of a scoring call: what it returns or raises, and the backend calls
  made on the way.\<close>

record 'j scoring =
  result :: "py_error + (string \<rightharpoonup> pyval) list"
  backend_calls :: "'j request list"

definition process_batches ::
  "('m, 'j) deps \<Rightarrow> 'j scorer \<Rightarrow> nat list \<Rightarrow> sample list list \<Rightarrow> string \<Rightarrow> 'j scoring" where
  "process_batches d self order batches expl =
     (let tasks = map (\<lambda>batch. query d self batch expl) batches
      in \<lparr>result =
            (case gather order tasks of
               Inl e \<Rightarrow> Inl e
             | Inr results \<Rightarrow> Inr (concat (map (map default') results))),
          backend_calls = concat (map requests tasks)\<rparr>)"

text \<open>\<^verbatim>\<open>RecallScorer.__call__\<close>.\<close>

definition call :: "('m, 'j) deps \<Rightarrow> 'j scorer \<Rightarrow> nat list \<Rightarrow> scorer_input \<Rightarrow> 'j scoring" where
  "call d self order scorer_in =
     (case prepare self (test_examples scorer_in) (random_examples (record' scorer_in)) of
        Inl e \<Rightarrow> \<lparr>result = Inl e, backend_calls = []\<rparr>
      | Inr samples \<Rightarrow> process_batches d self order samples (explanation scorer_in))"

section \<open>Concrete collaborators for the scenarios\<close>

text \<open>
  A two-word tokenizer, a scorer with the constructor's defaults around a given batch size
  and client, and stand-ins for the imported prompt template and response model. They are
  the concrete inputs at which the theorems below are instantiated.
\<close>

definition demo_decode :: "int list \<Rightarrow> string" where
  "demo_decode ts = concat (map (\<lambda>t. if t = 0 then ''cat '' else ''dog '') ts)"

definition demo_scorer :: "int \<Rightarrow> (string list request \<Rightarrow> py_error + response) \<Rightarrow> string list scorer" where
  "demo_scorer n cl =
     \<lparr>client = cl, tokenizer = demo_decode, echo = False, temperature = 0,
      max_tokens = 300, batch_size = n\<rparr>"

definition demo_deps :: "(nat, string list) deps" where
  "demo_deps =
     \<lparr>clean_prompt = (\<lambda>expl examples batched. expl @ [CHR 0x0A] @ examples),
      create_response_model = (\<lambda>n. n),
      model_json_schema = (\<lambda>n. map example_key [0..<n])\<rparr>"

text \<open>Clients and inputs of the scenarios: a structured answer for three examples,
  clients that answer every request with a fixed text, given by its code points or as an
  ASCII literal, and a request with one activating example.\<close>

definition scenario_b_client :: "string list request \<Rightarrow> py_error + response" where
  "scenario_b_client req =
     Inr (Structured [''example_0'' \<mapsto> PyInt 0, ''example_1'' \<mapsto> PyInt 1, ''example_2'' \<mapsto> PyInt 1])"

definition scenario_b_batch :: "sample list" where
  "scenario_b_batch =
     [\<lparr>text' = ''dog '', quantile = - 1, ground_truth = False, predicted = None\<rparr>,
      \<lparr>text' = ''cat '', quantile = 1, ground_truth = True, predicted = None\<rparr>,
      \<lparr>text' = ''cat cat '', quantile = 2, ground_truth = True, predicted = None\<rparr>]"

definition codepoint_client :: "pystr \<Rightarrow> string list request \<Rightarrow> py_error + response" where
  "codepoint_client t req = Inr (Text t)"

definition text_client :: "string \<Rightarrow> string list request \<Rightarrow> py_error + response" where
  "text_client t = codepoint_client (codepoints t)"

definition scenario_a_input :: scorer_input where
  "scenario_a_input =
     \<lparr>record' = \<lparr>random_examples = []\<rparr>, test_examples = [[\<lparr>tokens = [0]\<rparr>]],
      explanation = ''cats''\<rparr>"

text \<open>A client that answers a request carrying a schema with a fixed mapping and any
  other request with a fixed text, and a request whose three samples make two batches
  for batch size 2.\<close>

definition schema_client ::
  "(string \<rightharpoonup> pyval) \<Rightarrow> string \<Rightarrow> string list request \<Rightarrow> py_error + response" where
  "schema_client sel t req =
     (case schema req of
        None \<Rightarrow> Inr (Text (codepoints t))
      | Some js \<Rightarrow> Inr (Structured sel))"

definition scenario_c_input :: scorer_input where
  "scenario_c_input =
     \<lparr>record' = \<lparr>random_examples = [\<lparr>tokens = [1]\<rparr>]\<rparr>,
      test_examples = [[\<lparr>tokens = [0]\<rparr>, \<lparr>tokens = [0, 0]\<rparr>]],
      explanation = ''cats''\<rparr>"

definition scenario_c_batches :: "sample list list" where
  "scenario_c_batches =
     [[\<lparr>text' = ''dog '', quantile = - 1, ground_truth = False, predicted = None\<rparr>,
       \<lparr>text' = ''cat '', quantile = 1, ground_truth = True, predicted = None\<rparr>],
      [\<lparr>text' = ''cat cat '', quantile = 1, ground_truth = True, predicted = None\<rparr>]]"

section \<open>Properties of the sample assembler\<close>

text \<open>The loops in closed form.\<close>

lemma prepare_samples_loop_eq:
  "prepare_samples_loop es q g tok acc =
     acc @ map (\<lambda>e. \<lparr>text' = tok (tokens e), quantile = q, ground_truth = g, predicted = None\<rparr>) es"
  by (induction es arbitrary: acc) simp_all

lemma prepare_samples_eq:
  "prepare_samples es q g tok =
     map (\<lambda>e. \<lparr>text' = tok (tokens e), quantile = q, ground_truth = g, predicted = None\<rparr>) es"
  by (simp add: prepare_samples_def prepare_samples_loop_eq)

lemma extend_activating_eq:
  "extend_activating gs i tok acc =
     acc @ concat (map (\<lambda>(k, g). prepare_samples g (int k + 1) True tok) (zip [i..<i + length gs] gs))"
proof (induction gs arbitrary: i acc)
  case Nil
  then show ?case by simp
next
  case (Cons g gs)
  have "[i..<i + length (g # gs)] = i # [Suc i..<Suc i + length gs]"
    by (simp add: upt_rec)
  then show ?case using Cons.IH by simp
qed

lemma assemble_eq:
  "assemble self act inc =
     prepare_samples inc (- 1) False (tokenizer self) @
     concat (map (\<lambda>(k, g). prepare_samples g (int k + 1) True (tokenizer self))
                 (zip [0..<length act] act))"
  by (simp add: assemble_def extend_activating_eq)

lemma length_concat_enum:
  "length (concat (map (\<lambda>(k, g). prepare_samples g (f k) b tok) (zip [i..<i + length gs] gs))) =
     sum_list (map length gs)"
proof (induction gs arbitrary: i)
  case Nil
  then show ?case by simp
next
  case (Cons g gs)
  have "[i..<i + length (g # gs)] = i # [Suc i..<Suc i + length gs]"
    by (simp add: upt_rec)
  then show ?case using Cons.IH[of "Suc i"] by (simp add: prepare_samples_eq)
qed

lemma text_concat_enum:
  "map text' (concat (map (\<lambda>(k, g). prepare_samples g (f k) b tok) (zip [i..<i + length gs] gs))) =
     map (\<lambda>e. tok (tokens e)) (concat gs)"
proof (induction gs arbitrary: i)
  case Nil
  then show ?case by simp
next
  case (Cons g gs)
  have "[i..<i + length (g # gs)] = i # [Suc i..<Suc i + length gs]"
    by (simp add: upt_rec)
  then show ?case using Cons.IH[of "Suc i"] by (simp add: prepare_samples_eq comp_def)
qed

lemma length_assemble:
  "length (assemble self act inc) = length inc + sum_list (map length act)"
  using length_concat_enum[of "\<lambda>k. int k + 1" True "tokenizer self" 0 act]
  by (simp add: assemble_eq prepare_samples_eq)

lemma text_assemble:
  "map text' (assemble self act inc) = map (\<lambda>e. tokenizer self (tokens e)) (inc @ concat act)"
  using text_concat_enum[of "\<lambda>k. int k + 1" True "tokenizer self" 0 act]
  by (simp add: assemble_eq prepare_samples_eq comp_def)

lemma py_slice_chunk:
  assumes "0 \<le> i" "i < int (length xs)" "0 < step"
  shows "py_slice xs i (i + step) = take (nat step) (drop (nat i) xs)"
proof (cases "i + step \<le> int (length xs)")
  case True
  with assms show ?thesis by (simp add: py_slice_def Let_def min_def)
next
  case False
  with assms have "py_slice xs i (i + step) = take (nat (int (length xs) - i)) (drop (nat i) xs)"
    by (simp add: py_slice_def Let_def min_def)
  also have "\<dots> = drop (nat i) xs" using assms by simp
  also have "\<dots> = take (nat step) (drop (nat i) xs)" using False assms by simp
  finally show ?thesis .
qed

lemma concat_chunks_from:
  "0 < step \<Longrightarrow> 0 \<le> i \<Longrightarrow>
     concat (map (\<lambda>k. py_slice xs k (k + step)) (range_up i (int (length xs)) step)) = drop (nat i) xs"
proof (induction i "int (length xs)" step rule: range_up.induct)
  case (1 i step)
  show ?case
  proof (cases "i < int (length xs)")
    case True
    have ih: "concat (map (\<lambda>k. py_slice xs k (k + step)) (range_up (i + step) (int (length xs)) step))
                = drop (nat (i + step)) xs"
      using 1 True by simp
    have "nat (i + step) = nat i + nat step" using 1 by (simp add: nat_add_distrib)
    then have d: "drop (nat (i + step)) xs = drop (nat step) (drop (nat i) xs)"
      by (simp add: add.commute)
    have unf: "range_up i (int (length xs)) step = i # range_up (i + step) (int (length xs)) step"
      using True 1 by (simp add: range_up.simps[of i])
    have "concat (map (\<lambda>k. py_slice xs k (k + step)) (range_up i (int (length xs)) step))
            = py_slice xs i (i + step) @ drop (nat (i + step)) xs"
      by (simp only: unf list.map concat.simps ih)
    also have "\<dots> = take (nat step) (drop (nat i) xs) @ drop (nat step) (drop (nat i) xs)"
      using py_slice_chunk[of i xs step] True 1 d by simp
    also have "\<dots> = drop (nat i) xs" by (rule append_take_drop_id)
    finally show ?thesis .
  next
    case False
    then show ?thesis by (simp add: range_up.simps[of i])
  qed
qed

lemma range_up_nth:
  "0 < step \<Longrightarrow> k < length (range_up i stop step) \<Longrightarrow>
     range_up i stop step ! k = i + int k * step \<and> i + int k * step < stop"
proof (induction i stop step arbitrary: k rule: range_up.induct)
  case (1 i stop step)
  then have lt: "i < stop" by (auto simp: range_up.simps[of i] split: if_splits)
  then have unf: "range_up i stop step = i # range_up (i + step) stop step"
    using 1 by (simp add: range_up.simps[of i])
  show ?case
  proof (cases k)
    case 0
    then show ?thesis using unf lt by simp
  next
    case (Suc k')
    then have "k' < length (range_up (i + step) stop step)" using 1(3) unf by simp
    then have "range_up (i + step) stop step ! k' = i + step + int k' * step \<and> i + step + int k' * step < stop"
      using 1 lt by blast
    then show ?thesis using unf Suc by (simp add: algebra_simps)
  qed
qed

lemma assemble_labels:
  "s \<in> set (assemble self act inc) \<Longrightarrow>
     predicted s = None
     \<and> ((quantile s = - 1 \<and> \<not> ground_truth s) \<or> (1 \<le> quantile s \<and> ground_truth s))"
  by (auto simp: assemble_eq prepare_samples_eq)

text \<open>The batches of \<^verbatim>\<open>_prepare\<close> for a positive batch size.\<close>

lemma prepare_Inr:
  assumes "1 \<le> batch_size self"
  shows "prepare self act inc =
           Inr (map (\<lambda>i. py_slice (assemble self act inc) i (i + batch_size self))
                    (range_up 0 (int (length (assemble self act inc))) (batch_size self)))"
  using assms by (simp add: prepare_def py_range_def Let_def)

lemma concat_prepare:
  assumes "1 \<le> batch_size self" "prepare self act inc = Inr batches"
  shows "concat batches = assemble self act inc"
proof -
  have "0 < batch_size self" using assms by simp
  then show ?thesis
    using concat_chunks_from[of "batch_size self" 0 "assemble self act inc"] assms prepare_Inr[OF assms(1), of act inc]
    by simp
qed

lemma prepare_nth:
  assumes "1 \<le> batch_size self" "prepare self act inc = Inr batches" "k < length batches"
  shows "batches ! k = take (nat (batch_size self)) (drop (k * nat (batch_size self)) (assemble self act inc))"
    and "int k * batch_size self < int (length (assemble self act inc))"
proof -
  let ?xs = "assemble self act inc"
  let ?st = "range_up 0 (int (length ?xs)) (batch_size self)"
  have pos: "0 < batch_size self" using assms by simp
  have b: "batches = map (\<lambda>i. py_slice ?xs i (i + batch_size self)) ?st"
    using prepare_Inr[OF assms(1), of act inc] assms(2) by simp
  then have k: "k < length ?st" using assms(3) by simp
  from range_up_nth[OF pos k] have nth: "?st ! k = int k * batch_size self"
    and lt: "int k * batch_size self < int (length ?xs)" by simp_all
  show "int k * batch_size self < int (length ?xs)" by (rule lt)
  have "batches ! k = py_slice ?xs (int k * batch_size self) (int k * batch_size self + batch_size self)"
    using b k nth by simp
  also have "\<dots> = take (nat (batch_size self)) (drop (nat (int k * batch_size self)) ?xs)"
    using py_slice_chunk[of "int k * batch_size self" ?xs "batch_size self"] lt pos by simp
  also have "nat (int k * batch_size self) = k * nat (batch_size self)"
    using pos by (simp add: nat_mult_distrib)
  finally show "batches ! k = take (nat (batch_size self)) (drop (k * nat (batch_size self)) ?xs)" .
qed

lemma prepare_length_nth:
  assumes "1 \<le> batch_size self" "prepare self act inc = Inr batches" "k < length batches"
  shows "1 \<le> length (batches ! k)" "length (batches ! k) \<le> nat (batch_size self)"
    and "Suc k < length batches \<Longrightarrow> length (batches ! k) = nat (batch_size self)"
proof -
  let ?xs = "assemble self act inc"
  let ?b = "nat (batch_size self)"
  have pos: "0 < ?b" using assms by simp
  have eq: "batches ! k = take ?b (drop (k * ?b) ?xs)" by (rule prepare_nth(1)[OF assms])
  have "int k * batch_size self < int (length ?xs)" by (rule prepare_nth(2)[OF assms])
  then have "int (k * ?b) < int (length ?xs)" using assms(1) by simp
  then have lt: "k * ?b < length ?xs" by linarith
  have len: "length (batches ! k) = min ?b (length ?xs - k * ?b)" using eq by simp
  show "1 \<le> length (batches ! k)" using len lt pos by linarith
  show "length (batches ! k) \<le> ?b" using eq by simp
  show "length (batches ! k) = ?b" if "Suc k < length batches"
  proof -
    have "int (Suc k) * batch_size self < int (length ?xs)"
      by (rule prepare_nth(2)[OF assms(1,2) that])
    then have "int (Suc k * ?b) < int (length ?xs)" using assms(1) by (simp add: algebra_simps)
    then have "Suc k * ?b < length ?xs" by linarith
    then have "k * ?b + ?b \<le> length ?xs" by simp
    then show ?thesis using eq by simp
  qed
qed

lemma nth_concat_enum:
  "i < length gs \<Longrightarrow> j < length (gs ! i) \<Longrightarrow>
     concat (map (\<lambda>(k, g). prepare_samples g (f k) b tok) (zip [s..<s + length gs] gs))
       ! (sum_list (map length (take i gs)) + j) =
     \<lparr>text' = tok (tokens (gs ! i ! j)), quantile = f (s + i), ground_truth = b, predicted = None\<rparr>"
proof (induction gs arbitrary: i s)
  case Nil
  then show ?case by simp
next
  case (Cons g gs)
  have unf: "[s..<s + length (g # gs)] = s # [Suc s..<Suc s + length gs]"
    by (simp add: upt_rec)
  show ?case
  proof (cases i)
    case 0
    then show ?thesis using Cons.prems unf by (simp add: prepare_samples_eq nth_append)
  next
    case (Suc i')
    then have "i' < length gs" "j < length (gs ! i')" using Cons.prems by simp_all
    from Cons.IH[OF this, of "Suc s"] show ?thesis
      using Suc unf by (simp add: prepare_samples_eq nth_append)
  qed
qed

section \<open>Properties of the query dispatcher\<close>

text \<open>The loop of the batched branch: its result, what it leaves untouched, and the
  positions it writes.\<close>

lemma set_predictions_Cons:
  assumes "sel (example_key i) = Some v"
  shows "set_predictions sel i (s # rest) =
           (fst (set_predictions sel (Suc i) rest),
            s\<lparr>predicted := Some (py_eq_one v)\<rparr> # fst (snd (set_predictions sel (Suc i) rest)),
            (i, py_eq_one v) # snd (snd (set_predictions sel (Suc i) rest)))"
  using assms by (simp split: prod.splits)

lemma set_predictions_Cons_missing:
  assumes "sel (example_key i) = None"
  shows "set_predictions sel i (s # rest) = (Some KeyError, s # rest, [])"
  using assms by simp

lemma set_predictions_length:
  "length (fst (snd (set_predictions sel i batch))) = length batch"
proof (induction batch arbitrary: i)
  case Nil
  then show ?case by simp
next
  case (Cons s rest)
  show ?case
  proof (cases "sel (example_key i)")
    case None
    then show ?thesis by (simp only: set_predictions_Cons_missing) simp
  next
    case (Some v)
    then show ?thesis using Cons.IH[of "Suc i"] by (simp only: set_predictions_Cons) simp
  qed
qed

lemma set_predictions_frame:
  "map text' (fst (snd (set_predictions sel i batch))) = map text' batch
   \<and> map quantile (fst (snd (set_predictions sel i batch))) = map quantile batch
   \<and> map ground_truth (fst (snd (set_predictions sel i batch))) = map ground_truth batch"
proof (induction batch arbitrary: i)
  case Nil
  then show ?case by simp
next
  case (Cons s rest)
  show ?case
  proof (cases "sel (example_key i)")
    case None
    then show ?thesis by (simp only: set_predictions_Cons_missing) simp
  next
    case (Some v)
    then show ?thesis using Cons.IH[of "Suc i"] by (simp only: set_predictions_Cons) simp
  qed
qed

lemma set_predictions_writes_pos:
  "map fst (snd (snd (set_predictions sel i batch))) =
     [i..<i + length (snd (snd (set_predictions sel i batch)))]
   \<and> length (snd (snd (set_predictions sel i batch))) \<le> length batch"
proof (induction batch arbitrary: i)
  case Nil
  then show ?case by simp
next
  case (Cons s rest)
  show ?case
  proof (cases "sel (example_key i)")
    case None
    then show ?thesis by simp
  next
    case (Some v)
    obtain e b ws where r: "set_predictions sel (Suc i) rest = (e, b, ws)"
      by (cases "set_predictions sel (Suc i) rest") auto
    from Cons.IH[of "Suc i"] r have "map fst ws = [Suc i..<Suc i + length ws]" "length ws \<le> length rest"
      by simp_all
    then show ?thesis using Some r by (simp add: upt_conv_Cons del: upt_Suc)
  qed
qed

lemma set_predictions_ok:
  "(\<forall>k<length batch. sel (example_key (i + k)) \<noteq> None) \<Longrightarrow>
     fst (set_predictions sel i batch) = None
     \<and> (\<forall>k<length batch. fst (snd (set_predictions sel i batch)) ! k =
           (batch ! k)\<lparr>predicted := Some (py_eq_one (the (sel (example_key (i + k)))))\<rparr>)
     \<and> snd (snd (set_predictions sel i batch)) =
           map (\<lambda>k. (i + k, py_eq_one (the (sel (example_key (i + k)))))) [0..<length batch]"
proof (induction batch arbitrary: i)
  case Nil
  then show ?case by simp
next
  case (Cons s rest)
  from Cons.prems have "sel (example_key (i + 0)) \<noteq> None" by blast
  then obtain v where v: "sel (example_key i) = Some v" by auto
  have "\<forall>k<length rest. sel (example_key (Suc i + k)) \<noteq> None"
  proof (intro allI impI)
    fix k assume "k < length rest"
    then have "Suc k < length (s # rest)" by simp
    with Cons.prems have "sel (example_key (i + Suc k)) \<noteq> None" by blast
    then show "sel (example_key (Suc i + k)) \<noteq> None" by simp
  qed
  note ih = Cons.IH[OF this]
  obtain e b ws where r: "set_predictions sel (Suc i) rest = (e, b, ws)"
    by (cases "set_predictions sel (Suc i) rest") auto
  have e: "e = None" using ih r by simp
  have b: "\<forall>k<length rest. b ! k =
           (rest ! k)\<lparr>predicted := Some (py_eq_one (the (sel (example_key (Suc i + k)))))\<rparr>"
    using ih r by simp
  have ws: "ws = map (\<lambda>k. (Suc i + k, py_eq_one (the (sel (example_key (Suc i + k)))))) [0..<length rest]"
    using ih r by simp
  have res: "set_predictions sel i (s # rest) =
          (None, s\<lparr>predicted := Some (py_eq_one v)\<rparr> # b, (i, py_eq_one v) # ws)"
    using v r e by simp
  have nth: "\<forall>k<length (s # rest). (s\<lparr>predicted := Some (py_eq_one v)\<rparr> # b) ! k =
           ((s # rest) ! k)\<lparr>predicted := Some (py_eq_one (the (sel (example_key (i + k)))))\<rparr>"
  proof (intro allI impI)
    fix k assume k: "k < length (s # rest)"
    show "(s\<lparr>predicted := Some (py_eq_one v)\<rparr> # b) ! k =
           ((s # rest) ! k)\<lparr>predicted := Some (py_eq_one (the (sel (example_key (i + k)))))\<rparr>"
    proof (cases k)
      case 0
      then show ?thesis using v by simp
    next
      case (Suc k')
      then show ?thesis using b k by simp
    qed
  qed
  have "map (\<lambda>k. (i + k, py_eq_one (the (sel (example_key (i + k)))))) [0..<length (s # rest)]
          = (i, py_eq_one v) # ws"
    using v ws by (simp add: upt_conv_Cons map_Suc_upt[symmetric] del: upt_Suc)
  then show ?case using res nth by simp
qed

lemma set_predictions_missing:
  "k < length batch \<Longrightarrow> sel (example_key (i + k)) = None \<Longrightarrow>
     fst (set_predictions sel i batch) = Some KeyError
     \<and> fst (snd (set_predictions sel i batch)) ! k = batch ! k
     \<and> (i + k) \<notin> fst ` set (snd (snd (set_predictions sel i batch)))"
proof (induction batch arbitrary: i k)
  case Nil
  then show ?case by simp
next
  case (Cons s rest)
  show ?case
  proof (cases "sel (example_key i)")
    case None
    then show ?thesis by simp
  next
    case (Some v)
    then have "k \<noteq> 0" using Cons.prems by (cases k) auto
    then obtain k' where k': "k = Suc k'" by (cases k) auto
    then have "k' < length rest" "sel (example_key (Suc i + k')) = None"
      using Cons.prems by simp_all
    note ih = Cons.IH[OF this]
    obtain e b ws where r: "set_predictions sel (Suc i) rest = (e, b, ws)"
      by (cases "set_predictions sel (Suc i) rest") auto
    show ?thesis using ih r Some k' by simp
  qed
qed

text \<open>The logged assignments are exactly what changes the batch.\<close>

lemma foldl_write_shift:
  "(\<forall>w\<in>set ws. Suc i \<le> fst w) \<Longrightarrow>
     foldl (\<lambda>b w. b[fst w - i := (b ! (fst w - i))\<lparr>predicted := Some (snd w)\<rparr>]) (s # rest) ws =
     s # foldl (\<lambda>b w. b[fst w - Suc i := (b ! (fst w - Suc i))\<lparr>predicted := Some (snd w)\<rparr>]) rest ws"
proof (induction ws arbitrary: rest)
  case Nil
  then show ?case by simp
next
  case (Cons w ws)
  then have "Suc i \<le> fst w" by simp
  then have "fst w - i = Suc (fst w - Suc i)" by simp
  then show ?case using Cons by simp
qed

lemma set_predictions_replay:
  "foldl (\<lambda>b w. b[fst w - i := (b ! (fst w - i))\<lparr>predicted := Some (snd w)\<rparr>]) batch
         (snd (snd (set_predictions sel i batch))) =
     fst (snd (set_predictions sel i batch))"
proof (induction batch arbitrary: i)
  case Nil
  then show ?case by simp
next
  case (Cons s rest)
  show ?case
  proof (cases "sel (example_key i)")
    case None
    then show ?thesis by (simp only: set_predictions_Cons_missing) simp
  next
    case (Some v)
    let ?ws = "snd (snd (set_predictions sel (Suc i) rest))"
    have m: "map fst ?ws = [Suc i..<Suc i + length ?ws]"
      using set_predictions_writes_pos[of sel "Suc i" rest] by (rule conjunct1)
    have ge: "\<forall>w\<in>set ?ws. Suc i \<le> fst w"
    proof
      fix w assume "w \<in> set ?ws"
      then have "fst w \<in> set (map fst ?ws)" by simp
      then have "fst w \<in> set [Suc i..<Suc i + length ?ws]" by (simp only: m)
      then show "Suc i \<le> fst w" by (simp only: set_upt atLeastLessThan_iff)
    qed
    show ?thesis
      using foldl_write_shift[OF ge, of "s\<lparr>predicted := Some (py_eq_one v)\<rparr>" rest] Cons.IH[of "Suc i"] Some
      by (simp only: set_predictions_Cons) simp
  qed
qed

lemma set_predictions_apply_writes:
  "apply_writes batch (snd (snd (set_predictions sel 0 batch))) =
     fst (snd (set_predictions sel 0 batch))"
  using set_predictions_replay[of 0 batch sel]
  by (simp add: apply_writes_def apply_write_def[abs_def])

lemma query_batched_eq:
  assumes "1 < length batch"
  shows "query d self batch expl =
     (let req = \<lparr>prompt = build_prompt d batch expl True,
                 schema = Some (model_json_schema d (create_response_model d (length batch))),
                 req_max_tokens = max_tokens self, req_temperature = temperature self\<rparr>
      in case client self req of
           Inl e \<Rightarrow> \<lparr>raised = Some e, batch_after = batch, writes = [], requests = [req]\<rparr>
         | Inr (Text t) \<Rightarrow>
             \<lparr>raised = Some TypeError, batch_after = batch, writes = [], requests = [req]\<rparr>
         | Inr (Structured selections) \<Rightarrow>
             \<lparr>raised = fst (set_predictions selections 0 batch),
              batch_after = fst (snd (set_predictions selections 0 batch)),
              writes = snd (snd (set_predictions selections 0 batch)), requests = [req]\<rparr>)"
  using assms by (simp add: query_def Let_def split: sum.splits response.splits prod.splits)

lemma query_single_eq:
  assumes "\<not> 1 < length batch"
  shows "query d self batch expl =
     (let req = \<lparr>prompt = build_prompt d batch expl False, schema = None,
                 req_max_tokens = max_tokens self, req_temperature = temperature self\<rparr>
      in case client self req of
           Inl e \<Rightarrow> \<lparr>raised = Some e, batch_after = batch, writes = [], requests = [req]\<rparr>
         | Inr (Structured selections) \<Rightarrow>
             \<lparr>raised = Some KeyError, batch_after = batch, writes = [], requests = [req]\<rparr>
         | Inr (Text t) \<Rightarrow>
             (case str_last t of
                Inl e \<Rightarrow> \<lparr>raised = Some e, batch_after = batch, writes = [], requests = [req]\<rparr>
              | Inr c \<Rightarrow>
                  (case py_int_char c of
                     Inl e \<Rightarrow>
                       \<lparr>raised = Some e, batch_after = batch, writes = [], requests = [req]\<rparr>
                   | Inr v \<Rightarrow>
                       (case batch of
                          [] \<Rightarrow>
                            \<lparr>raised = Some IndexError, batch_after = batch, writes = [],
                             requests = [req]\<rparr>
                        | s # rest \<Rightarrow>
                            \<lparr>raised = None, batch_after = s\<lparr>predicted := Some (v = 1)\<rparr> # rest,
                             writes = [(0, v = 1)], requests = [req]\<rparr>))))"
  using assms by (simp add: query_def Let_def)

lemma query_requests:
  "requests (query d self batch expl) =
     [\<lparr>prompt = build_prompt d batch expl (1 < length batch),
       schema = (if 1 < length batch
                 then Some (model_json_schema d (create_response_model d (length batch)))
                 else None),
       req_max_tokens = max_tokens self, req_temperature = temperature self\<rparr>]"
proof (cases "1 < length batch")
  case True
  then show ?thesis
    by (simp add: query_batched_eq Let_def split: sum.splits response.splits)
next
  case False
  then show ?thesis
    by (simp add: query_single_eq Let_def split: sum.splits response.splits list.splits)
qed

lemma query_length:
  "length (batch_after (query d self batch expl)) = length batch"
proof (cases "1 < length batch")
  case True
  then show ?thesis
    by (simp add: query_batched_eq Let_def set_predictions_length split: sum.splits response.splits)
next
  case False
  then show ?thesis
    by (simp add: query_single_eq Let_def split: sum.splits response.splits list.splits)
qed

lemma query_frame:
  "map text' (batch_after (query d self batch expl)) = map text' batch
   \<and> map quantile (batch_after (query d self batch expl)) = map quantile batch
   \<and> map ground_truth (batch_after (query d self batch expl)) = map ground_truth batch"
proof (cases "1 < length batch")
  case True
  then show ?thesis
    by (simp add: query_batched_eq Let_def set_predictions_frame split: sum.splits response.splits)
next
  case False
  then show ?thesis
    by (simp add: query_single_eq Let_def split: sum.splits response.splits list.splits)
qed

lemma query_replay:
  "batch_after (query d self batch expl) = apply_writes batch (writes (query d self batch expl))"
proof (cases "1 < length batch")
  case True
  then show ?thesis
    by (simp add: query_batched_eq Let_def set_predictions_apply_writes
             split: sum.splits response.splits)
       (simp add: apply_writes_def)
next
  case False
  then show ?thesis
    by (simp add: query_single_eq Let_def apply_writes_def apply_write_def
             split: sum.splits response.splits list.splits)
qed

lemma set_predictions_writes_once:
  "distinct (map fst (snd (snd (set_predictions sel 0 batch))))
   \<and> (\<forall>p\<in>set (map fst (snd (snd (set_predictions sel 0 batch)))). p < length batch)"
proof -
  let ?ws = "snd (snd (set_predictions sel 0 batch))"
  have m: "map fst ?ws = [0..<0 + length ?ws]" and l: "length ?ws \<le> length batch"
    using set_predictions_writes_pos[of sel 0 batch] by blast+
  have "distinct (map fst ?ws)" by (simp only: m distinct_upt)
  moreover have "\<forall>p\<in>set (map fst ?ws). p < length batch"
    using l by (simp only: m set_upt) auto
  ultimately show ?thesis ..
qed

lemma query_writes_once:
  "distinct (map fst (writes (query d self batch expl)))
   \<and> (\<forall>p\<in>set (map fst (writes (query d self batch expl))). p < length batch)"
proof (cases "1 < length batch")
  case True
  then show ?thesis
    using set_predictions_writes_once[of _ batch]
    by (simp add: query_batched_eq Let_def split: sum.splits response.splits)
next
  case False
  then show ?thesis
    by (simp add: query_single_eq Let_def split: sum.splits response.splits list.splits)
qed

lemma query_writes_after_response:
  "writes (query d self batch expl) \<noteq> [] \<Longrightarrow>
     \<exists>resp. client self (hd (requests (query d self batch expl))) = Inr resp"
proof (cases "1 < length batch")
  case True
  assume "writes (query d self batch expl) \<noteq> []"
  then show ?thesis using True
    by (cases "client self
             \<lparr>prompt = build_prompt d batch expl True,
              schema = Some (model_json_schema d (create_response_model d (length batch))),
              req_max_tokens = max_tokens self, req_temperature = temperature self\<rparr>")
       (simp_all add: query_batched_eq Let_def split: response.splits)
next
  case False
  assume "writes (query d self batch expl) \<noteq> []"
  then show ?thesis using False
    by (cases "client self
             \<lparr>prompt = build_prompt d batch expl False, schema = None,
              req_max_tokens = max_tokens self, req_temperature = temperature self\<rparr>")
       (simp_all add: query_single_eq Let_def split: response.splits sum.splits list.splits)
qed

text \<open>The first field names, the decimal digit values on ASCII and at some other
  digits, and the single-sample branch once the client has answered with text.\<close>

lemma example_key_small:
  "example_key 0 = ''example_0'' \<and> example_key 1 = ''example_1'' \<and> example_key 2 = ''example_2''
   \<and> example_key (Suc 0) = ''example_1'' \<and> example_key (Suc (Suc 0)) = ''example_2''"
  by (simp add: example_key_def str_nat.simps)

lemma unicode_decimal_ascii:
  "c < 128 \<Longrightarrow> unicode_decimal c = (if 48 \<le> c \<and> c \<le> 57 then Some (c - 48) else None)"
  by (simp add: unicode_decimal_def decimal_zeros_def)

lemma unicode_decimal_ascii_one:
  "c < 128 \<Longrightarrow> (unicode_decimal c = Some 1) = (c = of_char CHR ''1'')"
  by (auto simp: unicode_decimal_ascii)

lemma ascii_digit_range:
  "48 \<le> c \<Longrightarrow> c \<le> (57::nat) \<Longrightarrow> c \<in> {48, 49, 50, 51, 52, 53, 54, 55, 56, 57}"
  by (simp; arith)

lemma unicode_decimal_ascii_nondigit:
  assumes "c < 128" and "c \<notin> set (codepoints ''0123456789'')"
  shows "unicode_decimal c = None"
proof -
  have "c \<notin> {48, 49, 50, 51, 52, 53, 54, 55, 56, 57}"
    using assms(2) by (simp add: codepoints_def)
  then have "\<not> (48 \<le> c \<and> c \<le> 57)" using ascii_digit_range by blast
  then show ?thesis using assms(1) by (simp add: unicode_decimal_ascii)
qed

lemma unicode_decimal_ascii_digit:
  "c \<in> set (codepoints ''023456789'') \<Longrightarrow> \<exists>v. unicode_decimal c = Some v \<and> v \<noteq> 1"
  by (auto simp: unicode_decimal_ascii codepoints_def)

lemma unicode_decimal_samples:
  "unicode_decimal (of_char CHR ''1'') = Some 1 \<and> unicode_decimal 0x661 = Some 1
   \<and> unicode_decimal 0xFF11 = Some 1 \<and> unicode_decimal 0xFF12 = Some 2"
  by (simp add: unicode_decimal_def decimal_zeros_def)

lemma py_int_char_one: "py_int_char c = Inr v \<Longrightarrow> (v = 1) = (unicode_decimal c = Some 1)"
  by (auto simp: py_int_char_def split: option.splits)

lemma py_int_char_Inl: "(py_int_char c = Inl e) = (unicode_decimal c = None \<and> e = ValueError)"
  by (auto simp: py_int_char_def split: option.splits)

lemma str_last_eq: "str_last t = (if t = [] then Inl IndexError else Inr (last t))"
  by (cases t) (simp_all add: str_last_def)

lemma query_single_text:
  assumes "length batch = 1"
      and "client self
             \<lparr>prompt = build_prompt d batch expl False, schema = None,
              req_max_tokens = max_tokens self, req_temperature = temperature self\<rparr>
           = Inr (Text t)"
  shows "query d self batch expl =
     (let req = \<lparr>prompt = build_prompt d batch expl False, schema = None,
                 req_max_tokens = max_tokens self, req_temperature = temperature self\<rparr>
      in if t = [] then
           \<lparr>raised = Some IndexError, batch_after = batch, writes = [], requests = [req]\<rparr>
         else (case py_int_char (last t) of
                 Inl e \<Rightarrow>
                   \<lparr>raised = Some e, batch_after = batch, writes = [], requests = [req]\<rparr>
               | Inr v \<Rightarrow>
                   \<lparr>raised = None, batch_after = [(hd batch)\<lparr>predicted := Some (v = 1)\<rparr>],
                    writes = [(0, v = 1)], requests = [req]\<rparr>))"
proof -
  obtain s where b: "batch = [s]" using assms(1) by (cases batch) auto
  show ?thesis
    using assms(2) unfolding b
    by (simp add: query_single_eq Let_def str_last_eq split: sum.splits)
qed

section \<open>Properties of joining and flattening\<close>

lemma first_raised_None:
  "(\<forall>r\<in>set runs. raised r = None) \<Longrightarrow> first_raised order runs = None"
  by (induction order) (auto split: option.splits)

lemma first_raised_Some:
  "i \<in> set order \<Longrightarrow> i < length runs \<Longrightarrow> raised (runs ! i) \<noteq> None \<Longrightarrow>
     first_raised order runs \<noteq> None"
  by (induction order) (auto split: option.splits)

lemma gather_Inr_iff:
  assumes "set order = {0..<length runs}"
  shows "(\<exists>rs. gather order runs = Inr rs) = (\<forall>r\<in>set runs. raised r = None)"
proof
  assume "\<exists>rs. gather order runs = Inr rs"
  then have fr: "first_raised order runs = None"
    by (auto simp: gather_def split: option.splits)
  show "\<forall>r\<in>set runs. raised r = None"
  proof
    fix r assume "r \<in> set runs"
    then obtain i where i: "i < length runs" "runs ! i = r" by (auto simp: in_set_conv_nth)
    then have "i \<in> set order" using assms by simp
    then have "\<not> raised (runs ! i) \<noteq> None"
      using first_raised_Some[of i order runs] i(1) fr by blast
    then show "raised r = None" using i(2) by simp
  qed
next
  assume "\<forall>r\<in>set runs. raised r = None"
  then show "\<exists>rs. gather order runs = Inr rs"
    by (simp add: gather_def first_raised_None)
qed

lemma concat_slice:
  "k < length xss \<Longrightarrow>
     take (length (xss ! k)) (drop (sum_list (map length (take k xss))) (concat xss)) = xss ! k"
proof (induction xss arbitrary: k)
  case Nil
  then show ?case by simp
next
  case (Cons xs xss)
  show ?case
  proof (cases k)
    case 0
    then show ?thesis by simp
  next
    case (Suc k')
    then show ?thesis using Cons by simp
  qed
qed

lemma process_batches_ok:
  assumes "\<forall>b\<in>set batches. raised (query d self b expl) = None"
  shows "result (process_batches d self order batches expl) =
           Inr (concat (map (\<lambda>b. map default' (batch_after (query d self b expl))) batches))"
proof -
  have "first_raised order (map (\<lambda>b. query d self b expl) batches) = None"
    using assms by (intro first_raised_None) simp
  then show ?thesis
    by (simp add: process_batches_def gather_def Let_def comp_def)
qed

lemma process_batches_Inr:
  assumes "set order = {0..<length batches}"
      and "result (process_batches d self order batches expl) = Inr out"
  shows "\<forall>b\<in>set batches. raised (query d self b expl) = None"
proof -
  let ?runs = "map (\<lambda>b. query d self b expl) batches"
  have "\<exists>rs. gather order ?runs = Inr rs"
    using assms(2) by (auto simp: process_batches_def Let_def split: sum.splits)
  moreover have "set order = {0..<length ?runs}" using assms(1) by simp
  ultimately have "\<forall>r\<in>set ?runs. raised r = None" using gather_Inr_iff[of order ?runs] by blast
  then show ?thesis by simp
qed

lemma default'_fields:
  "default' s ''text'' = Some (PyStr (text' s))
   \<and> default' s ''quantile'' = Some (PyInt (quantile s))
   \<and> default' s ''ground_truth'' = Some (PyBool (ground_truth s))
   \<and> default' s ''predicted'' = Some (case predicted s of None \<Rightarrow> PyNone | Some b \<Rightarrow> PyBool b)"
  by (simp add: default'_def)

lemma default'_inj: "default' a = default' b \<Longrightarrow> a = b"
proof -
  assume eq: "default' a = default' b"
  have t: "text' a = text' b" using default'_fields[of a] default'_fields[of b] eq by simp
  have q: "quantile a = quantile b" using default'_fields[of a] default'_fields[of b] eq by simp
  have g: "ground_truth a = ground_truth b" using default'_fields[of a] default'_fields[of b] eq by simp
  have "(case predicted a of None \<Rightarrow> PyNone | Some b \<Rightarrow> PyBool b)
          = (case predicted b of None \<Rightarrow> PyNone | Some b \<Rightarrow> PyBool b)"
    using default'_fields[of a] default'_fields[of b] eq by simp
  then have p: "predicted a = predicted b" by (auto split: option.splits)
  show "a = b" using t q g p by simp
qed

lemma first_raised_Nil: "first_raised order [] = None"
  by (induction order) simp_all

lemma map_through:
  "map f xs = map f ys \<Longrightarrow> map (\<lambda>s. g (f s)) xs = map (\<lambda>s. g (f s)) ys"
proof -
  assume "map f xs = map f ys"
  then have "map g (map f xs) = map g (map f ys)" by (rule arg_cong)
  then show ?thesis by (simp only: map_map comp_def)
qed

lemma process_batches_out:
  assumes "result (process_batches d self order batches expl) = Inr out"
  shows "out = concat (map (\<lambda>b. map default' (batch_after (query d self b expl))) batches)"
  using assms
  by (auto simp: process_batches_def gather_def Let_def comp_def split: sum.splits option.splits)

lemma flatten_slices:
  assumes "k < length batches"
  shows "take (length (batches ! k))
           (drop (sum_list (map length (take k batches)))
              (concat (map (\<lambda>b. map default' (batch_after (query d self b expl))) batches))) =
         map default' (batch_after (query d self (batches ! k) expl))"
proof -
  let ?xss = "map (\<lambda>b. map default' (batch_after (query d self b expl))) batches"
  have ml: "map length ?xss = map length batches" by (simp add: query_length comp_def)
  have k: "k < length ?xss" using assms by simp
  have "length (?xss ! k) = length (batches ! k)" using assms by (simp add: query_length)
  moreover have "sum_list (map length (take k ?xss)) = sum_list (map length (take k batches))"
    using ml by (metis take_map)
  moreover have "?xss ! k = map default' (batch_after (query d self (batches ! k) expl))"
    using assms by simp
  ultimately show ?thesis using concat_slice[OF k] by simp
qed

lemma flatten_fields:
  "map (\<lambda>r. r ''text'')
       (concat (map (\<lambda>b. map default' (batch_after (query d self b expl))) batches)) =
     map (\<lambda>s. Some (PyStr (text' s))) (concat batches)
   \<and> map (\<lambda>r. r ''quantile'')
       (concat (map (\<lambda>b. map default' (batch_after (query d self b expl))) batches)) =
     map (\<lambda>s. Some (PyInt (quantile s))) (concat batches)
   \<and> map (\<lambda>r. r ''ground_truth'')
       (concat (map (\<lambda>b. map default' (batch_after (query d self b expl))) batches)) =
     map (\<lambda>s. Some (PyBool (ground_truth s))) (concat batches)"
proof (induction batches)
  case Nil
  then show ?case by simp
next
  case (Cons b bs)
  have t: "map (\<lambda>s. Some (PyStr (text' s))) (batch_after (query d self b expl)) =
             map (\<lambda>s. Some (PyStr (text' s))) b"
    by (rule map_through) (simp add: query_frame)
  have q: "map (\<lambda>s. Some (PyInt (quantile s))) (batch_after (query d self b expl)) =
             map (\<lambda>s. Some (PyInt (quantile s))) b"
    by (rule map_through) (simp add: query_frame)
  have g: "map (\<lambda>s. Some (PyBool (ground_truth s))) (batch_after (query d self b expl)) =
             map (\<lambda>s. Some (PyBool (ground_truth s))) b"
    by (rule map_through) (simp add: query_frame)
  show ?case using Cons t q g by (simp add: default'_fields comp_def)
qed

lemma call_fields:
  assumes "1 \<le> batch_size self"
      and "result (call d self order scorer_in) = Inr out"
  shows "map (\<lambda>r. r ''text'') out =
           map (\<lambda>s. Some (PyStr (text' s)))
             (assemble self (test_examples scorer_in) (random_examples (record' scorer_in)))
         \<and> map (\<lambda>r. r ''quantile'') out =
           map (\<lambda>s. Some (PyInt (quantile s)))
             (assemble self (test_examples scorer_in) (random_examples (record' scorer_in)))
         \<and> map (\<lambda>r. r ''ground_truth'') out =
           map (\<lambda>s. Some (PyBool (ground_truth s)))
             (assemble self (test_examples scorer_in) (random_examples (record' scorer_in)))"
proof -
  let ?act = "test_examples scorer_in"
  let ?inc = "random_examples (record' scorer_in)"
  let ?batches = "map (\<lambda>i. py_slice (assemble self ?act ?inc) i (i + batch_size self))
                    (range_up 0 (int (length (assemble self ?act ?inc))) (batch_size self))"
  have p: "prepare self ?act ?inc = Inr ?batches" by (rule prepare_Inr[OF assms(1)])
  have c: "concat ?batches = assemble self ?act ?inc" by (rule concat_prepare[OF assms(1) p])
  have "result (process_batches d self order ?batches (explanation scorer_in)) = Inr out"
    using assms(2) by (simp add: call_def p)
  then have o: "out = concat (map (\<lambda>b. map default'
                    (batch_after (query d self b (explanation scorer_in)))) ?batches)"
    by (rule process_batches_out)
  show ?thesis
    unfolding o using flatten_fields[of d self "explanation scorer_in" ?batches]
    by (simp only: c)
qed

section \<open>The scenarios, evaluated\<close>

lemma scenario_a_prepare:
  "prepare (demo_scorer 1 cl) (test_examples scenario_a_input)
       (random_examples (record' scenario_a_input)) =
     Inr [[\<lparr>text' = ''cat '', quantile = 1, ground_truth = True, predicted = None\<rparr>]]"
  by (simp add: prepare_def py_range_def range_up.simps assemble_eq prepare_samples_eq
        demo_scorer_def demo_decode_def scenario_a_input_def Let_def py_slice_def)

lemma scenario_c_prepare:
  "prepare (demo_scorer 2 cl) (test_examples scenario_c_input)
       (random_examples (record' scenario_c_input)) = Inr scenario_c_batches"
  by (simp add: prepare_def py_range_def range_up.simps assemble_eq prepare_samples_eq
        demo_scorer_def demo_decode_def scenario_c_input_def scenario_c_batches_def Let_def
        py_slice_def)

lemma scenario_c_single:
  "query demo_deps (demo_scorer 2 (schema_client sel ''Sure: 1''))
         [\<lparr>text' = ''cat cat '', quantile = 1, ground_truth = True, predicted = None\<rparr>] ''cats'' =
     \<lparr>raised = None,
      batch_after = [\<lparr>text' = ''cat cat '', quantile = 1, ground_truth = True, predicted = Some True\<rparr>],
      writes = [(0, True)],
      requests = [\<lparr>prompt = build_prompt demo_deps
                    [\<lparr>text' = ''cat cat '', quantile = 1, ground_truth = True, predicted = None\<rparr>]
                    ''cats'' False,
                  schema = None, req_max_tokens = 300, req_temperature = 0\<rparr>]\<rparr>"
  using unicode_decimal_samples
  by (simp add: query_single_eq Let_def demo_scorer_def schema_client_def str_last_def
        py_int_char_def codepoints_def)

lemma scenario_c_good:
  "query demo_deps (demo_scorer 2 (schema_client [''example_0'' \<mapsto> PyInt 0, ''example_1'' \<mapsto> PyInt 1] t))
         [\<lparr>text' = ''dog '', quantile = - 1, ground_truth = False, predicted = None\<rparr>,
          \<lparr>text' = ''cat '', quantile = 1, ground_truth = True, predicted = None\<rparr>] ''cats'' =
     \<lparr>raised = None,
      batch_after = [\<lparr>text' = ''dog '', quantile = - 1, ground_truth = False, predicted = Some False\<rparr>,
                     \<lparr>text' = ''cat '', quantile = 1, ground_truth = True, predicted = Some True\<rparr>],
      writes = [(0, False), (1, True)],
      requests = [\<lparr>prompt = build_prompt demo_deps
                    [\<lparr>text' = ''dog '', quantile = - 1, ground_truth = False, predicted = None\<rparr>,
                     \<lparr>text' = ''cat '', quantile = 1, ground_truth = True, predicted = None\<rparr>]
                    ''cats'' True,
                  schema = Some [''example_0'', ''example_1''],
                  req_max_tokens = 300, req_temperature = 0\<rparr>]\<rparr>"
  using example_key_small
  by (simp add: query_batched_eq Let_def demo_scorer_def schema_client_def demo_deps_def)

lemma scenario_c_bad:
  "query demo_deps (demo_scorer 2 (schema_client [''example_0'' \<mapsto> PyInt 1] t))
         [\<lparr>text' = ''dog '', quantile = - 1, ground_truth = False, predicted = None\<rparr>,
          \<lparr>text' = ''cat '', quantile = 1, ground_truth = True, predicted = None\<rparr>] ''cats'' =
     \<lparr>raised = Some KeyError,
      batch_after = [\<lparr>text' = ''dog '', quantile = - 1, ground_truth = False, predicted = Some True\<rparr>,
                     \<lparr>text' = ''cat '', quantile = 1, ground_truth = True, predicted = None\<rparr>],
      writes = [(0, True)],
      requests = [\<lparr>prompt = build_prompt demo_deps
                    [\<lparr>text' = ''dog '', quantile = - 1, ground_truth = False, predicted = None\<rparr>,
                     \<lparr>text' = ''cat '', quantile = 1, ground_truth = True, predicted = None\<rparr>]
                    ''cats'' True,
                  schema = Some [''example_0'', ''example_1''],
                  req_max_tokens = 300, req_temperature = 0\<rparr>]\<rparr>"
  using example_key_small
  by (simp add: query_batched_eq Let_def demo_scorer_def schema_client_def demo_deps_def)

section \<open>The claims about the sample assembler\<close>

text \<open>
  C4 (assembly completeness). The flat list assembled by \<^verbatim>\<open>_prepare\<close> has one sample
  per raw example: its length is the number of random examples plus the sum of the sizes of
  the activating groups, and its texts are the decoded examples, the random ones first and
  then the groups in order, so nothing is dropped or duplicated. For a batch size of at
  least 1 the same holds of the batches \<^verbatim>\<open>_prepare\<close> returns, taken together.
\<close>

theorem assembly_completeness:
  "length (assemble self act inc) = length inc + sum_list (map length act)
   \<and> map text' (assemble self act inc) = map (\<lambda>e. tokenizer self (tokens e)) (inc @ concat act)
   \<and> (1 \<le> batch_size self \<longrightarrow>
        (\<exists>batches. prepare self act inc = Inr batches
           \<and> length (concat batches) = length inc + sum_list (map length act)
           \<and> map text' (concat batches) = map (\<lambda>e. tokenizer self (tokens e)) (inc @ concat act)))"
proof (intro conjI impI)
  show "length (assemble self act inc) = length inc + sum_list (map length act)"
    by (rule length_assemble)
  show "map text' (assemble self act inc) = map (\<lambda>e. tokenizer self (tokens e)) (inc @ concat act)"
    by (rule text_assemble)
  assume bs: "1 \<le> batch_size self"
  let ?batches = "map (\<lambda>i. py_slice (assemble self act inc) i (i + batch_size self))
                    (range_up 0 (int (length (assemble self act inc))) (batch_size self))"
  have p: "prepare self act inc = Inr ?batches" by (rule prepare_Inr[OF bs])
  have c: "concat ?batches = assemble self act inc" by (rule concat_prepare[OF bs p])
  show "\<exists>batches. prepare self act inc = Inr batches
           \<and> length (concat batches) = length inc + sum_list (map length act)
           \<and> map text' (concat batches) = map (\<lambda>e. tokenizer self (tokens e)) (inc @ concat act)"
    using p c length_assemble[of self act inc] text_assemble[of self act inc]
    by (intro exI[of _ ?batches]) (simp only: simp_thms)
qed

theorem assembly_completeness_witness:
  "1 \<le> batch_size (demo_scorer 2 (\<lambda>r. Inl BackendError))
   \<and> (\<exists>batches. prepare (demo_scorer 2 (\<lambda>r. Inl BackendError))
          [[\<lparr>tokens = [0]\<rparr>, \<lparr>tokens = [1]\<rparr>], [\<lparr>tokens = [0, 1]\<rparr>]] [\<lparr>tokens = [1, 1]\<rparr>] = Inr batches
        \<and> length (concat batches) = 4
        \<and> map text' (concat batches) = [''dog dog '', ''cat '', ''dog '', ''cat dog ''])"
  using assembly_completeness[of "demo_scorer 2 (\<lambda>r. Inl BackendError)"
          "[[\<lparr>tokens = [0]\<rparr>, \<lparr>tokens = [1]\<rparr>], [\<lparr>tokens = [0, 1]\<rparr>]]" "[\<lparr>tokens = [1, 1]\<rparr>]"]
  by (simp add: demo_scorer_def demo_decode_def numeral_eq_Suc)

text \<open>
  C5 (label correctness and placement). The sample at position \<open>k\<close> of the assembled list,
  for \<open>k\<close> below the number of random examples, is built from the \<open>k\<close>-th random example
  with quantile \<open>-1\<close> and ground truth false; the sample built from example \<open>j\<close> of
  activating group \<open>i\<close> (0-indexed) stands after all random samples and all earlier groups,
  with quantile \<open>i + 1\<close> and ground truth true. Every sample starts with \<^verbatim>\<open>predicted\<close>
  unset.
\<close>

theorem label_correctness:
  "(\<forall>k<length inc. assemble self act inc ! k =
       \<lparr>text' = tokenizer self (tokens (inc ! k)), quantile = - 1, ground_truth = False,
        predicted = None\<rparr>)
   \<and> (\<forall>i<length act. \<forall>j<length (act ! i).
         assemble self act inc ! (length inc + sum_list (map length (take i act)) + j) =
           \<lparr>text' = tokenizer self (tokens (act ! i ! j)), quantile = int i + 1,
            ground_truth = True, predicted = None\<rparr>)"
proof (intro conjI allI impI)
  fix k assume "k < length inc"
  then show "assemble self act inc ! k =
       \<lparr>text' = tokenizer self (tokens (inc ! k)), quantile = - 1, ground_truth = False,
        predicted = None\<rparr>"
    by (simp add: assemble_eq prepare_samples_eq nth_append)
next
  fix i j assume ij: "i < length act" "j < length (act ! i)"
  have "assemble self act inc ! (length inc + sum_list (map length (take i act)) + j) =
          concat (map (\<lambda>(k, g). prepare_samples g (int k + 1) True (tokenizer self))
                      (zip [0..<0 + length act] act)) ! (sum_list (map length (take i act)) + j)"
    by (simp add: assemble_eq prepare_samples_eq nth_append add.assoc)
  also have "\<dots> = \<lparr>text' = tokenizer self (tokens (act ! i ! j)), quantile = int (0 + i) + 1,
            ground_truth = True, predicted = None\<rparr>"
    by (rule nth_concat_enum[OF ij])
  finally show "assemble self act inc ! (length inc + sum_list (map length (take i act)) + j) =
           \<lparr>text' = tokenizer self (tokens (act ! i ! j)), quantile = int i + 1,
            ground_truth = True, predicted = None\<rparr>"
    by simp
qed

theorem label_correctness_witness:
  "0 < length [\<lparr>tokens = [1, 1]\<rparr>]
   \<and> assemble (demo_scorer 2 (\<lambda>r. Inl BackendError))
        [[\<lparr>tokens = [0]\<rparr>, \<lparr>tokens = [1]\<rparr>], [\<lparr>tokens = [0, 1]\<rparr>]] [\<lparr>tokens = [1, 1]\<rparr>] ! 0 =
       \<lparr>text' = ''dog dog '', quantile = - 1, ground_truth = False, predicted = None\<rparr>
   \<and> 1 < length [[\<lparr>tokens = [0]\<rparr>, \<lparr>tokens = [1]\<rparr>], [\<lparr>tokens = [0, 1]\<rparr>]]
   \<and> assemble (demo_scorer 2 (\<lambda>r. Inl BackendError))
        [[\<lparr>tokens = [0]\<rparr>, \<lparr>tokens = [1]\<rparr>], [\<lparr>tokens = [0, 1]\<rparr>]] [\<lparr>tokens = [1, 1]\<rparr>] ! 3 =
       \<lparr>text' = ''cat dog '', quantile = 2, ground_truth = True, predicted = None\<rparr>"
proof -
  let ?S = "demo_scorer 2 (\<lambda>r. Inl BackendError)"
  let ?act = "[[\<lparr>tokens = [0]\<rparr>, \<lparr>tokens = [1]\<rparr>], [\<lparr>tokens = [0, 1]\<rparr>]]"
  let ?inc = "[\<lparr>tokens = [1, 1]\<rparr>]"
  note lc = label_correctness[where self = ?S and act = ?act and inc = ?inc]
  have a: "assemble ?S ?act ?inc ! 0 =
       \<lparr>text' = ''dog dog '', quantile = - 1, ground_truth = False, predicted = None\<rparr>"
    using lc[THEN conjunct1, rule_format, of 0] by (simp add: demo_scorer_def demo_decode_def)
  have b: "assemble ?S ?act ?inc ! 3 =
       \<lparr>text' = ''cat dog '', quantile = 2, ground_truth = True, predicted = None\<rparr>"
    using lc[THEN conjunct2, rule_format, of 1 0]
    by (simp add: demo_scorer_def demo_decode_def eval_nat_numeral)
  show ?thesis using a b by simp
qed

text \<open>
  C6 (batching is an order-preserving partition). For a batch size \<open>n \<ge> 1\<close>,
  \<^verbatim>\<open>_prepare\<close> returns batches whose concatenation is the assembled list; batch \<open>k\<close> is
  the contiguous chunk of \<open>n\<close> samples starting at position \<open>k * n\<close>; no batch is empty or
  longer than \<open>n\<close>, and every batch but the last has exactly \<open>n\<close> samples.
\<close>

theorem batch_partition:
  assumes "1 \<le> batch_size self"
  shows "\<exists>batches. prepare self act inc = Inr batches
           \<and> concat batches = assemble self act inc
           \<and> (\<forall>k<length batches.
                 batches ! k = take (nat (batch_size self))
                                 (drop (k * nat (batch_size self)) (assemble self act inc))
                 \<and> 1 \<le> length (batches ! k)
                 \<and> length (batches ! k) \<le> nat (batch_size self)
                 \<and> (Suc k < length batches \<longrightarrow> length (batches ! k) = nat (batch_size self)))"
proof -
  let ?batches = "map (\<lambda>i. py_slice (assemble self act inc) i (i + batch_size self))
                    (range_up 0 (int (length (assemble self act inc))) (batch_size self))"
  have p: "prepare self act inc = Inr ?batches" by (rule prepare_Inr[OF assms])
  have c: "concat ?batches = assemble self act inc" by (rule concat_prepare[OF assms p])
  have n: "\<forall>k<length ?batches.
                 ?batches ! k = take (nat (batch_size self))
                                 (drop (k * nat (batch_size self)) (assemble self act inc))
                 \<and> 1 \<le> length (?batches ! k)
                 \<and> length (?batches ! k) \<le> nat (batch_size self)
                 \<and> (Suc k < length ?batches \<longrightarrow> length (?batches ! k) = nat (batch_size self))"
    using prepare_nth(1)[OF assms p] prepare_length_nth[OF assms p] by blast
  show ?thesis using p c n by (intro exI[of _ ?batches]) (simp only: simp_thms)
qed

theorem batch_partition_witness:
  "1 \<le> batch_size (demo_scorer 3 (\<lambda>r. Inl BackendError))
   \<and> (\<exists>batches. prepare (demo_scorer 3 (\<lambda>r. Inl BackendError))
          [[\<lparr>tokens = [0]\<rparr>, \<lparr>tokens = [1]\<rparr>], [\<lparr>tokens = [0, 1]\<rparr>]] [\<lparr>tokens = [1, 1]\<rparr>] = Inr batches
        \<and> map (map text') batches = [[''dog dog '', ''cat '', ''dog ''], [''cat dog '']]
        \<and> concat batches = assemble (demo_scorer 3 (\<lambda>r. Inl BackendError))
          [[\<lparr>tokens = [0]\<rparr>, \<lparr>tokens = [1]\<rparr>], [\<lparr>tokens = [0, 1]\<rparr>]] [\<lparr>tokens = [1, 1]\<rparr>])"
proof -
  let ?S = "demo_scorer 3 (\<lambda>r. Inl BackendError)"
  let ?act = "[[\<lparr>tokens = [0]\<rparr>, \<lparr>tokens = [1]\<rparr>], [\<lparr>tokens = [0, 1]\<rparr>]]"
  let ?inc = "[\<lparr>tokens = [1, 1]\<rparr>]"
  have bs: "1 \<le> batch_size ?S" by (simp add: demo_scorer_def)
  from batch_partition[OF bs, of ?act ?inc] obtain batches where
    p: "prepare ?S ?act ?inc = Inr batches" and c: "concat batches = assemble ?S ?act ?inc"
    by blast
  have "prepare ?S ?act ?inc =
          Inr (map (\<lambda>i. py_slice (assemble ?S ?act ?inc) i (i + 3)) [0, 3])"
    by (simp add: prepare_def py_range_def range_up.simps assemble_eq prepare_samples_eq
          demo_scorer_def Let_def)
  then have "batches = map (\<lambda>i. py_slice (assemble ?S ?act ?inc) i (i + 3)) [0, 3]"
    using p by (simp only: sum.inject)
  then have m: "map (map text') batches = [[''dog dog '', ''cat '', ''dog ''], [''cat dog '']]"
    by (simp add: py_slice_def assemble_eq prepare_samples_eq demo_scorer_def demo_decode_def Let_def)
  show ?thesis by (intro conjI exI[of _ batches] bs p c m)
qed

section \<open>The claims about the query dispatcher\<close>

text \<open>
  C1 (batched parsing). For a batch of more than one sample whose request the backend
  answers with a mapping that has a field \<^verbatim>\<open>example_i\<close> for every position \<open>i\<close> of the
  batch, \<^verbatim>\<open>query\<close> returns normally and the sample at position \<open>i\<close> is the input sample
  with \<^verbatim>\<open>predicted\<close> set to whether the value at \<^verbatim>\<open>example_i\<close> equals 1; for an integer
  indicator \<open>n\<close> that is \<open>n = 1\<close>. The witness is Scenario B: three samples and the answer
  \<^verbatim>\<open>{example_0: 0, example_1: 1, example_2: 1}\<close> give the predictions false, true, true.
\<close>

theorem query_batched_predictions:
  assumes "1 < length batch"
      and "client self
             \<lparr>prompt = build_prompt d batch expl True,
              schema = Some (model_json_schema d (create_response_model d (length batch))),
              req_max_tokens = max_tokens self, req_temperature = temperature self\<rparr>
           = Inr (Structured selections)"
      and "\<forall>i<length batch. selections (example_key i) \<noteq> None"
  shows "raised (query d self batch expl) = None
         \<and> length (batch_after (query d self batch expl)) = length batch
         \<and> (\<forall>i<length batch.
               batch_after (query d self batch expl) ! i =
                 (batch ! i)\<lparr>predicted := Some (py_eq_one (the (selections (example_key i))))\<rparr>)
         \<and> (\<forall>i<length batch. \<forall>n. selections (example_key i) = Some (PyInt n) \<longrightarrow>
               predicted (batch_after (query d self batch expl) ! i) = Some (n = 1))"
proof -
  have q: "query d self batch expl =
             \<lparr>raised = fst (set_predictions selections 0 batch),
              batch_after = fst (snd (set_predictions selections 0 batch)),
              writes = snd (snd (set_predictions selections 0 batch)),
              requests = [\<lparr>prompt = build_prompt d batch expl True,
                 schema = Some (model_json_schema d (create_response_model d (length batch))),
                 req_max_tokens = max_tokens self, req_temperature = temperature self\<rparr>]\<rparr>"
    using assms(1,2) by (simp add: query_batched_eq Let_def)
  have "\<forall>k<length batch. selections (example_key (0 + k)) \<noteq> None" using assms(3) by simp
  from set_predictions_ok[OF this]
  have r: "fst (set_predictions selections 0 batch) = None"
    and n: "\<forall>k<length batch. fst (snd (set_predictions selections 0 batch)) ! k =
           (batch ! k)\<lparr>predicted := Some (py_eq_one (the (selections (example_key k))))\<rparr>"
    by simp_all
  have l: "length (batch_after (query d self batch expl)) = length batch" by (rule query_length)
  have i: "\<forall>i<length batch. \<forall>n. selections (example_key i) = Some (PyInt n) \<longrightarrow>
               predicted (batch_after (query d self batch expl) ! i) = Some (n = 1)"
    using n q by simp
  show ?thesis using q r n l i by simp
qed

theorem query_batched_predictions_witness:
  "1 < length scenario_b_batch
   \<and> raised (query demo_deps (demo_scorer 3 scenario_b_client) scenario_b_batch ''cats'') = None
   \<and> map predicted (batch_after (query demo_deps (demo_scorer 3 scenario_b_client) scenario_b_batch ''cats''))
       = [Some False, Some True, Some True]"
proof -
  let ?S = "demo_scorer 3 scenario_b_client"
  let ?r = "query demo_deps ?S scenario_b_batch ''cats''"
  have len: "1 < length scenario_b_batch" by (simp add: scenario_b_batch_def)
  have cl: "client ?S
             \<lparr>prompt = build_prompt demo_deps scenario_b_batch ''cats'' True,
              schema = Some (model_json_schema demo_deps
                               (create_response_model demo_deps (length scenario_b_batch))),
              req_max_tokens = max_tokens ?S, req_temperature = temperature ?S\<rparr>
           = Inr (Structured [''example_0'' \<mapsto> PyInt 0, ''example_1'' \<mapsto> PyInt 1,
                              ''example_2'' \<mapsto> PyInt 1])"
    by (simp add: demo_scorer_def scenario_b_client_def)
  have keys: "\<forall>i<length scenario_b_batch.
                [''example_0'' \<mapsto> PyInt 0, ''example_1'' \<mapsto> PyInt 1, ''example_2'' \<mapsto> PyInt 1]
                  (example_key i) \<noteq> None"
    using example_key_small by (simp add: scenario_b_batch_def All_less_Suc)
  note t = query_batched_predictions[OF len cl keys]
  have l: "length (batch_after ?r) = 3" using t by (simp add: scenario_b_batch_def)
  have p0: "predicted (batch_after ?r ! 0) = Some False"
    using t[THEN conjunct2, THEN conjunct2, THEN conjunct1, rule_format, of 0] example_key_small
    by (simp add: scenario_b_batch_def)
  have p1: "predicted (batch_after ?r ! 1) = Some True"
    using t[THEN conjunct2, THEN conjunct2, THEN conjunct1, rule_format, of 1] example_key_small
    by (simp add: scenario_b_batch_def)
  have p2: "predicted (batch_after ?r ! 2) = Some True"
    using t[THEN conjunct2, THEN conjunct2, THEN conjunct1, rule_format, of 2] example_key_small
    by (simp add: scenario_b_batch_def)
  have "map predicted (batch_after ?r) = [Some False, Some True, Some True]"
    using l p0 p1 p2 by (auto simp: numeral_3_eq_3 length_Suc_conv eval_nat_numeral)
  then show ?thesis using len t by simp
qed

text \<open>
  C2 (single-sample parsing). As stated the claim fails: an answer whose last character is
  the Arabic-Indic digit one (U+0661) does not end in the character \<^verbatim>\<open>1\<close>, yet
  \<^verbatim>\<open>int()\<close> reads it as 1 and \<^verbatim>\<open>predicted\<close> is set to true.
\<close>

theorem unicode_one_sets_predicted_true:
  "last (codepoints ''Answer: '' @ [0x661]) \<noteq> of_char CHR ''1''
   \<and> raised (query demo_deps
        (demo_scorer 1 (codepoint_client (codepoints ''Answer: '' @ [0x661])))
        [\<lparr>text' = ''cat '', quantile = 1, ground_truth = True, predicted = None\<rparr>] ''cats'') = None
   \<and> batch_after (query demo_deps
        (demo_scorer 1 (codepoint_client (codepoints ''Answer: '' @ [0x661])))
        [\<lparr>text' = ''cat '', quantile = 1, ground_truth = True, predicted = None\<rparr>] ''cats'') =
       [\<lparr>text' = ''cat '', quantile = 1, ground_truth = True, predicted = Some True\<rparr>]"
  using unicode_decimal_samples
  by (simp add: query_single_eq Let_def demo_scorer_def codepoint_client_def str_last_def
        py_int_char_def codepoints_def)

text \<open>
  C2, as the code has it. For a batch of exactly one sample, \<^verbatim>\<open>query\<close> issues one
  backend call, without a schema; when the answer is the text \<open>t\<close>, the assignment
  \<^verbatim>\<open>predicted = True\<close> is performed if and only if \<open>t\<close> is not empty and its last character
  is a decimal digit of value 1, and then the query returns the sample with
  \<^verbatim>\<open>predicted\<close> true; this is so in particular when the last character is \<^verbatim>\<open>1\<close>, and
  among ASCII characters only then. Otherwise the sample is left as it was or gets
  \<^verbatim>\<open>predicted\<close> false. The witness is Scenario A, through the whole scoring call: batch
  size 1, one activating example, an answer ending in \<^verbatim>\<open>1\<close>, and the one result record
  has \<^verbatim>\<open>predicted\<close> true.
\<close>

theorem query_single_prediction:
  assumes "length batch = 1"
      and "client self
             \<lparr>prompt = build_prompt d batch expl False, schema = None,
              req_max_tokens = max_tokens self, req_temperature = temperature self\<rparr>
           = Inr (Text t)"
  shows "requests (query d self batch expl) =
           [\<lparr>prompt = build_prompt d batch expl False, schema = None,
             req_max_tokens = max_tokens self, req_temperature = temperature self\<rparr>]
         \<and> ((writes (query d self batch expl) = [(0, True)]) =
              (t \<noteq> [] \<and> unicode_decimal (last t) = Some 1))
         \<and> (t \<noteq> [] \<and> unicode_decimal (last t) = Some 1 \<longrightarrow>
               raised (query d self batch expl) = None
               \<and> batch_after (query d self batch expl) = [(hd batch)\<lparr>predicted := Some True\<rparr>])
         \<and> (t \<noteq> [] \<and> last t = of_char CHR ''1'' \<longrightarrow>
               raised (query d self batch expl) = None
               \<and> batch_after (query d self batch expl) = [(hd batch)\<lparr>predicted := Some True\<rparr>])
         \<and> (t \<noteq> [] \<and> last t < 128 \<longrightarrow>
               (writes (query d self batch expl) = [(0, True)]) = (last t = of_char CHR ''1''))
         \<and> (\<not> (t \<noteq> [] \<and> unicode_decimal (last t) = Some 1) \<longrightarrow>
               batch_after (query d self batch expl) = batch
               \<or> batch_after (query d self batch expl) = [(hd batch)\<lparr>predicted := Some False\<rparr>])"
proof -
  let ?r = "query d self batch expl"
  have rq: "requests ?r =
           [\<lparr>prompt = build_prompt d batch expl False, schema = None,
             req_max_tokens = max_tokens self, req_temperature = temperature self\<rparr>]"
    by (simp add: query_single_text[OF assms] Let_def split: sum.splits)
  have w: "(writes ?r = [(0, True)]) = (t \<noteq> [] \<and> unicode_decimal (last t) = Some 1)"
  proof (cases "t = []")
    case True
    then show ?thesis by (simp add: query_single_text[OF assms] Let_def)
  next
    case False
    show ?thesis
    proof (cases "py_int_char (last t)")
      case (Inl e)
      then have "unicode_decimal (last t) = None" by (simp add: py_int_char_Inl)
      then show ?thesis using False Inl by (simp add: query_single_text[OF assms] Let_def)
    next
      case (Inr v)
      from py_int_char_one[OF this] show ?thesis
        using False Inr by (simp add: query_single_text[OF assms] Let_def)
    qed
  qed
  have tr: "raised ?r = None \<and> batch_after ?r = [(hd batch)\<lparr>predicted := Some True\<rparr>]"
    if h: "t \<noteq> [] \<and> unicode_decimal (last t) = Some 1"
  proof -
    have "py_int_char (last t) = Inr 1" using h by (simp add: py_int_char_def)
    then show ?thesis using h by (simp add: query_single_text[OF assms] Let_def)
  qed
  have one: "raised ?r = None \<and> batch_after ?r = [(hd batch)\<lparr>predicted := Some True\<rparr>]"
    if h: "t \<noteq> [] \<and> last t = of_char CHR ''1''"
  proof -
    have "unicode_decimal (last t) = Some 1" using h unicode_decimal_samples by simp
    then show ?thesis using h tr by blast
  qed
  have asc: "(writes ?r = [(0, True)]) = (last t = of_char CHR ''1'')"
    if h: "t \<noteq> [] \<and> last t < 128"
    using h w unicode_decimal_ascii_one[of "last t"] by simp
  have fl: "batch_after ?r = batch \<or> batch_after ?r = [(hd batch)\<lparr>predicted := Some False\<rparr>]"
    if h: "\<not> (t \<noteq> [] \<and> unicode_decimal (last t) = Some 1)"
  proof (cases "t = []")
    case True
    then show ?thesis by (simp add: query_single_text[OF assms] Let_def)
  next
    case False
    then have n: "unicode_decimal (last t) \<noteq> Some 1" using h by simp
    show ?thesis
    proof (cases "py_int_char (last t)")
      case (Inl e)
      then show ?thesis using False by (simp add: query_single_text[OF assms] Let_def)
    next
      case (Inr v)
      from py_int_char_one[OF this] n have "v \<noteq> 1" by simp
      then show ?thesis using False Inr by (simp add: query_single_text[OF assms] Let_def)
    qed
  qed
  show ?thesis using rq w tr one asc fl by blast
qed

theorem query_single_prediction_witness:
  "length [\<lparr>text' = ''cat '', quantile = 1, ground_truth = True, predicted = None\<rparr>] = 1
   \<and> result (call demo_deps (demo_scorer 1 (text_client ''It matches. Answer: 1'')) [0]
               scenario_a_input) =
       Inr [default' \<lparr>text' = ''cat '', quantile = 1, ground_truth = True, predicted = Some True\<rparr>]
   \<and> default' \<lparr>text' = ''cat '', quantile = 1, ground_truth = True, predicted = Some True\<rparr>
        ''predicted'' = Some (PyBool True)
   \<and> map schema (backend_calls (call demo_deps (demo_scorer 1 (text_client ''It matches. Answer: 1''))
        [0] scenario_a_input)) = [None]
   \<and> map predicted (batch_after (query demo_deps (demo_scorer 1 (text_client ''It does not.''))
        [\<lparr>text' = ''cat '', quantile = 1, ground_truth = True, predicted = None\<rparr>] ''cats''))
       = [None]"
proof -
  let ?S = "demo_scorer 1 (text_client ''It matches. Answer: 1'')"
  let ?b = "[\<lparr>text' = ''cat '', quantile = 1, ground_truth = True, predicted = None\<rparr>]"
  let ?t = "codepoints ''It matches. Answer: 1''"
  have len: "length ?b = 1" by simp
  have cl: "client ?S \<lparr>prompt = build_prompt demo_deps ?b ''cats'' False, schema = None,
              req_max_tokens = max_tokens ?S, req_temperature = temperature ?S\<rparr> = Inr (Text ?t)"
    by (simp add: demo_scorer_def text_client_def codepoint_client_def)
  have l: "?t \<noteq> [] \<and> last ?t = of_char CHR ''1''" by (simp add: codepoints_def)
  note t = query_single_prediction[OF len cl]
  have q: "raised (query demo_deps ?S ?b ''cats'') = None"
    and a: "batch_after (query demo_deps ?S ?b ''cats'') =
              [\<lparr>text' = ''cat '', quantile = 1, ground_truth = True, predicted = Some True\<rparr>]"
    using t[THEN conjunct2, THEN conjunct2, THEN conjunct2, THEN conjunct1, rule_format, OF l]
    by simp_all
  have r: "map schema (requests (query demo_deps ?S ?b ''cats'')) = [None]"
    using t[THEN conjunct1] by simp
  have "result (process_batches demo_deps ?S [0] [?b] ''cats'') =
          Inr (concat (map (\<lambda>b. map default' (batch_after (query demo_deps ?S b ''cats''))) [?b]))"
    using q by (intro process_batches_ok) simp
  then have res: "result (call demo_deps ?S [0] scenario_a_input) =
       Inr [default' \<lparr>text' = ''cat '', quantile = 1, ground_truth = True, predicted = Some True\<rparr>]"
    using a by (simp add: call_def scenario_a_prepare) (simp add: scenario_a_input_def)
  have calls: "map schema (backend_calls (call demo_deps ?S [0] scenario_a_input)) = [None]"
    using r by (simp add: call_def scenario_a_prepare process_batches_def Let_def)
       (simp add: scenario_a_input_def)
  let ?N = "demo_scorer 1 (text_client ''It does not.'')"
  let ?u = "codepoints ''It does not.''"
  have cl': "client ?N \<lparr>prompt = build_prompt demo_deps ?b ''cats'' False, schema = None,
              req_max_tokens = max_tokens ?N, req_temperature = temperature ?N\<rparr> = Inr (Text ?u)"
    by (simp add: demo_scorer_def text_client_def codepoint_client_def)
  have nd: "unicode_decimal (last ?u) = None"
    by (simp add: codepoints_def unicode_decimal_ascii)
  have "writes (query demo_deps ?N ?b ''cats'') \<noteq> [(0, True)]"
    using query_single_prediction[OF len cl', THEN conjunct2, THEN conjunct1] nd by simp
  then have n: "map predicted (batch_after (query demo_deps ?N ?b ''cats'')) = [None]"
    using nd by (simp add: query_single_text[OF len cl'] Let_def py_int_char_def codepoints_def)
  show ?thesis using res calls n by (simp add: default'_def)
qed

text \<open>
  C10 (unparsable free text). As stated the claim fails under either reading of
  \<open>decimal digit\<close>. An answer ending in the fullwidth digit two (U+FF12) does not end in one
  of the characters \<^verbatim>\<open>0\<close> to \<^verbatim>\<open>9\<close>, yet the query raises nothing and sets
  \<^verbatim>\<open>predicted\<close> to false; an answer ending in the Arabic-Indic digit one (U+0661) ends in a
  decimal digit other than the character \<^verbatim>\<open>1\<close>, yet \<^verbatim>\<open>predicted\<close> is set to true.
\<close>

theorem unicode_digits_are_parsed:
  "last (codepoints ''Answer: '' @ [0xFF12]) \<notin> set (codepoints ''0123456789'')
   \<and> raised (query demo_deps
        (demo_scorer 1 (codepoint_client (codepoints ''Answer: '' @ [0xFF12])))
        [\<lparr>text' = ''cat '', quantile = 1, ground_truth = True, predicted = None\<rparr>] ''cats'') = None
   \<and> map predicted (batch_after (query demo_deps
        (demo_scorer 1 (codepoint_client (codepoints ''Answer: '' @ [0xFF12])))
        [\<lparr>text' = ''cat '', quantile = 1, ground_truth = True, predicted = None\<rparr>] ''cats''))
       = [Some False]
   \<and> unicode_decimal (last (codepoints ''Answer: '' @ [0x661])) = Some 1
   \<and> last (codepoints ''Answer: '' @ [0x661]) \<noteq> of_char CHR ''1''
   \<and> map predicted (batch_after (query demo_deps
        (demo_scorer 1 (codepoint_client (codepoints ''Answer: '' @ [0x661])))
        [\<lparr>text' = ''cat '', quantile = 1, ground_truth = True, predicted = None\<rparr>] ''cats''))
       = [Some True]"
  using unicode_decimal_samples
  by (simp add: query_single_eq Let_def demo_scorer_def codepoint_client_def str_last_def
        py_int_char_def codepoints_def)

text \<open>
  C10, as the code has it. In single-sample mode the query raises instead of producing a
  prediction exactly when the answer is empty (\<^verbatim>\<open>IndexError\<close>) or its last character has
  no decimal digit value (\<^verbatim>\<open>ValueError\<close>), which is the case of every ASCII character other
  than \<^verbatim>\<open>0\<close> to \<^verbatim>\<open>9\<close>; nothing is then assigned and the sample is left as it was, so
  an unset \<^verbatim>\<open>predicted\<close> stays unset. When the last character is a decimal digit of a value
  other than 1, as the ASCII digits other than \<^verbatim>\<open>1\<close> are, the query returns the
  sample with \<^verbatim>\<open>predicted\<close> false.
\<close>

theorem query_single_unparsable:
  assumes "length batch = 1"
      and "client self
             \<lparr>prompt = build_prompt d batch expl False, schema = None,
              req_max_tokens = max_tokens self, req_temperature = temperature self\<rparr>
           = Inr (Text t)"
  shows "((raised (query d self batch expl) \<noteq> None) =
            (t = [] \<or> unicode_decimal (last t) = None))
         \<and> (t = [] \<longrightarrow>
            raised (query d self batch expl) = Some IndexError
            \<and> batch_after (query d self batch expl) = batch
            \<and> writes (query d self batch expl) = [])
         \<and> (t \<noteq> [] \<and> unicode_decimal (last t) = None \<longrightarrow>
            raised (query d self batch expl) = Some ValueError
            \<and> batch_after (query d self batch expl) = batch
            \<and> writes (query d self batch expl) = [])
         \<and> (t \<noteq> [] \<and> last t < 128 \<and> last t \<notin> set (codepoints ''0123456789'') \<longrightarrow>
            raised (query d self batch expl) = Some ValueError
            \<and> batch_after (query d self batch expl) = batch
            \<and> writes (query d self batch expl) = [])
         \<and> (\<forall>v. t \<noteq> [] \<and> unicode_decimal (last t) = Some v \<and> v \<noteq> 1 \<longrightarrow>
            raised (query d self batch expl) = None
            \<and> batch_after (query d self batch expl) = [(hd batch)\<lparr>predicted := Some False\<rparr>])
         \<and> (t \<noteq> [] \<and> last t \<in> set (codepoints ''023456789'') \<longrightarrow>
            raised (query d self batch expl) = None
            \<and> batch_after (query d self batch expl) = [(hd batch)\<lparr>predicted := Some False\<rparr>])"
proof -
  let ?r = "query d self batch expl"
  have a: "raised ?r = Some IndexError \<and> batch_after ?r = batch \<and> writes ?r = []" if "t = []"
    using that by (simp add: query_single_text[OF assms] Let_def)
  have b: "raised ?r = Some ValueError \<and> batch_after ?r = batch \<and> writes ?r = []"
    if h: "t \<noteq> [] \<and> unicode_decimal (last t) = None"
  proof -
    have "py_int_char (last t) = Inl ValueError" using h by (simp add: py_int_char_def)
    then show ?thesis using h by (simp add: query_single_text[OF assms] Let_def)
  qed
  have b': "raised ?r = Some ValueError \<and> batch_after ?r = batch \<and> writes ?r = []"
    if h: "t \<noteq> [] \<and> last t < 128 \<and> last t \<notin> set (codepoints ''0123456789'')"
  proof -
    have "unicode_decimal (last t) = None" using h by (intro unicode_decimal_ascii_nondigit) simp_all
    then show ?thesis using h b by blast
  qed
  have c: "raised ?r = None \<and> batch_after ?r = [(hd batch)\<lparr>predicted := Some False\<rparr>]"
    if h: "t \<noteq> [] \<and> unicode_decimal (last t) = Some v \<and> v \<noteq> 1" for v
  proof -
    have "py_int_char (last t) = Inr (int v)" using h by (simp add: py_int_char_def)
    moreover have "int v \<noteq> 1" using h by simp
    ultimately show ?thesis using h by (simp add: query_single_text[OF assms] Let_def)
  qed
  have c': "raised ?r = None \<and> batch_after ?r = [(hd batch)\<lparr>predicted := Some False\<rparr>]"
    if h: "t \<noteq> [] \<and> last t \<in> set (codepoints ''023456789'')"
  proof -
    obtain v where "unicode_decimal (last t) = Some v \<and> v \<noteq> 1"
      using h unicode_decimal_ascii_digit by blast
    then show ?thesis using h c by blast
  qed
  have e: "(raised ?r \<noteq> None) = (t = [] \<or> unicode_decimal (last t) = None)"
  proof (cases "t = []")
    case True
    then show ?thesis using a by simp
  next
    case False
    show ?thesis
    proof (cases "unicode_decimal (last t)")
      case None
      then show ?thesis using False b by simp
    next
      case (Some v)
      then have "py_int_char (last t) = Inr (int v)" by (simp add: py_int_char_def)
      then show ?thesis using False Some by (simp add: query_single_text[OF assms] Let_def)
    qed
  qed
  show ?thesis using a b b' c c' e by blast
qed

theorem query_single_unparsable_witness:
  "raised (query demo_deps (demo_scorer 1 (text_client ''''))
     [\<lparr>text' = ''cat '', quantile = 1, ground_truth = True, predicted = None\<rparr>] ''cats'')
     = Some IndexError
   \<and> raised (query demo_deps (demo_scorer 1 (text_client ''yes''))
     [\<lparr>text' = ''cat '', quantile = 1, ground_truth = True, predicted = None\<rparr>] ''cats'')
     = Some ValueError
   \<and> map predicted (batch_after (query demo_deps (demo_scorer 1 (text_client ''yes''))
     [\<lparr>text' = ''cat '', quantile = 1, ground_truth = True, predicted = None\<rparr>] ''cats''))
     = [None]
   \<and> raised (query demo_deps (demo_scorer 1 (text_client ''Answer: 0''))
     [\<lparr>text' = ''cat '', quantile = 1, ground_truth = True, predicted = None\<rparr>] ''cats'')
     = None
   \<and> map predicted (batch_after (query demo_deps (demo_scorer 1 (text_client ''Answer: 0''))
     [\<lparr>text' = ''cat '', quantile = 1, ground_truth = True, predicted = None\<rparr>] ''cats''))
     = [Some False]
   \<and> map predicted (batch_after (query demo_deps
        (demo_scorer 1 (codepoint_client (codepoints ''Answer: '' @ [0xFF12])))
     [\<lparr>text' = ''cat '', quantile = 1, ground_truth = True, predicted = None\<rparr>] ''cats''))
     = [Some False]"
proof -
  let ?b = "[\<lparr>text' = ''cat '', quantile = 1, ground_truth = True, predicted = None\<rparr>]"
  have len: "length ?b = 1" by simp
  have cl: "\<And>t. client (demo_scorer 1 (codepoint_client t))
              \<lparr>prompt = build_prompt demo_deps ?b ''cats'' False, schema = None,
               req_max_tokens = max_tokens (demo_scorer 1 (codepoint_client t)),
               req_temperature = temperature (demo_scorer 1 (codepoint_client t))\<rparr> = Inr (Text t)"
    by (simp add: demo_scorer_def codepoint_client_def)
  note th = query_single_unparsable[OF len cl]
  have e: "raised (query demo_deps (demo_scorer 1 (text_client '''')) ?b ''cats'') = Some IndexError"
    using th[of "codepoints ''''", THEN conjunct2, THEN conjunct1]
    by (simp add: text_client_def codepoints_def)
  have "raised (query demo_deps (demo_scorer 1 (text_client ''yes'')) ?b ''cats'') = Some ValueError
           \<and> batch_after (query demo_deps (demo_scorer 1 (text_client ''yes'')) ?b ''cats'') = ?b"
    using th[of "codepoints ''yes''", THEN conjunct2, THEN conjunct2, THEN conjunct2, THEN conjunct1]
    by (simp add: text_client_def codepoints_def)
  then have y: "raised (query demo_deps (demo_scorer 1 (text_client ''yes'')) ?b ''cats'')
                  = Some ValueError"
    and y': "map predicted (batch_after (query demo_deps (demo_scorer 1 (text_client ''yes'')) ?b
                  ''cats'')) = [None]"
    by simp_all
  have "raised (query demo_deps (demo_scorer 1 (text_client ''Answer: 0'')) ?b ''cats'') = None
           \<and> batch_after (query demo_deps (demo_scorer 1 (text_client ''Answer: 0'')) ?b ''cats'')
               = [(hd ?b)\<lparr>predicted := Some False\<rparr>]"
    using th[of "codepoints ''Answer: 0''", THEN conjunct2, THEN conjunct2, THEN conjunct2,
             THEN conjunct2, THEN conjunct2]
    by (simp add: text_client_def codepoints_def)
  then have z: "raised (query demo_deps (demo_scorer 1 (text_client ''Answer: 0'')) ?b ''cats'') = None"
    and z': "map predicted (batch_after (query demo_deps (demo_scorer 1 (text_client ''Answer: 0''))
                  ?b ''cats'')) = [Some False]"
    by simp_all
  have "batch_after (query demo_deps
            (demo_scorer 1 (codepoint_client (codepoints ''Answer: '' @ [0xFF12]))) ?b ''cats'')
          = [(hd ?b)\<lparr>predicted := Some False\<rparr>]"
    using th[of "codepoints ''Answer: '' @ [0xFF12]", THEN conjunct2, THEN conjunct2,
             THEN conjunct2, THEN conjunct2, THEN conjunct1, rule_format, of 2]
      unicode_decimal_samples
    by simp
  then have f: "map predicted (batch_after (query demo_deps
            (demo_scorer 1 (codepoint_client (codepoints ''Answer: '' @ [0xFF12]))) ?b ''cats''))
          = [Some False]"
    by simp
  show ?thesis by (intro conjI e y y' z z' f)
qed

section \<open>The claims about the scoring call\<close>

text \<open>
  C7 (flattening is order-preserving and lossless). Whatever the order in which the
  concurrent queries complete, \<^verbatim>\<open>process_batches\<close> returns a result exactly when every
  query returns, and the result is then the concatenation, in batch order, of the records
  of each query's batch: cut at the original batch boundaries it gives back each query's
  output, its texts, quantiles and ground truths are those of the batches as assembled, in
  the same order, and every other completion order gives the same result. For a batch size
  of at least 1 the texts a scoring call returns are the texts of the assembled list, in
  the assembler's order.
\<close>

theorem flatten_roundtrip:
  assumes "set order = {0..<length batches}"
  shows "((\<exists>out. result (process_batches d self order batches expl) = Inr out) =
            (\<forall>b\<in>set batches. raised (query d self b expl) = None))
         \<and> (\<forall>out. result (process_batches d self order batches expl) = Inr out \<longrightarrow>
               out = concat (map (\<lambda>b. map default' (batch_after (query d self b expl))) batches)
               \<and> (\<forall>k<length batches.
                     take (length (batches ! k))
                          (drop (sum_list (map length (take k batches))) out) =
                       map default' (batch_after (query d self (batches ! k) expl)))
               \<and> map (\<lambda>r. r ''text'') out = map (\<lambda>s. Some (PyStr (text' s))) (concat batches)
               \<and> map (\<lambda>r. r ''quantile'') out = map (\<lambda>s. Some (PyInt (quantile s))) (concat batches)
               \<and> map (\<lambda>r. r ''ground_truth'') out =
                   map (\<lambda>s. Some (PyBool (ground_truth s))) (concat batches)
               \<and> (\<forall>order'. set order' = {0..<length batches} \<longrightarrow>
                     result (process_batches d self order' batches expl) = Inr out))
         \<and> (1 \<le> batch_size self \<longrightarrow>
               (\<forall>out. result (call d self order scorer_in) = Inr out \<longrightarrow>
                  map (\<lambda>r. r ''text'') out =
                    map (\<lambda>s. Some (PyStr (text' s)))
                      (assemble self (test_examples scorer_in)
                         (random_examples (record' scorer_in)))))"
proof (intro conjI allI impI)
  show "(\<exists>out. result (process_batches d self order batches expl) = Inr out) =
            (\<forall>b\<in>set batches. raised (query d self b expl) = None)"
    using process_batches_Inr[OF assms] process_batches_ok[of batches d self expl order] by blast
next
  fix out assume r: "result (process_batches d self order batches expl) = Inr out"
  show o: "out = concat (map (\<lambda>b. map default' (batch_after (query d self b expl))) batches)"
    by (rule process_batches_out[OF r])
  show "map (\<lambda>r. r ''text'') out = map (\<lambda>s. Some (PyStr (text' s))) (concat batches)"
    unfolding o using flatten_fields[of d self expl batches] by blast
  show "map (\<lambda>r. r ''quantile'') out = map (\<lambda>s. Some (PyInt (quantile s))) (concat batches)"
    unfolding o using flatten_fields[of d self expl batches] by blast
  show "map (\<lambda>r. r ''ground_truth'') out = map (\<lambda>s. Some (PyBool (ground_truth s))) (concat batches)"
    unfolding o using flatten_fields[of d self expl batches] by blast
  have ok: "\<forall>b\<in>set batches. raised (query d self b expl) = None"
    by (rule process_batches_Inr[OF assms r])
  { fix order' :: "nat list"
    assume "set order' = {0..<length batches}"
    show "result (process_batches d self order' batches expl) = Inr out"
      unfolding o by (rule process_batches_ok[OF ok]) }
  { fix k assume "k < length batches"
    then show "take (length (batches ! k)) (drop (sum_list (map length (take k batches))) out) =
                 map default' (batch_after (query d self (batches ! k) expl))"
      unfolding o by (rule flatten_slices) }
next
  fix out
  assume "1 \<le> batch_size self" and "result (call d self order scorer_in) = Inr out"
  then show "map (\<lambda>r. r ''text'') out =
               map (\<lambda>s. Some (PyStr (text' s)))
                 (assemble self (test_examples scorer_in) (random_examples (record' scorer_in)))"
    using call_fields by blast
qed

theorem flatten_roundtrip_witness:
  "set [1, 0] = {0..<length scenario_c_batches}
   \<and> result (process_batches demo_deps
        (demo_scorer 2 (schema_client [''example_0'' \<mapsto> PyInt 0, ''example_1'' \<mapsto> PyInt 1] ''Sure: 1''))
        [1, 0] scenario_c_batches ''cats'') =
      Inr [default' \<lparr>text' = ''dog '', quantile = - 1, ground_truth = False, predicted = Some False\<rparr>,
           default' \<lparr>text' = ''cat '', quantile = 1, ground_truth = True, predicted = Some True\<rparr>,
           default' \<lparr>text' = ''cat cat '', quantile = 1, ground_truth = True, predicted = Some True\<rparr>]
   \<and> 1 \<le> batch_size
         (demo_scorer 2 (schema_client [''example_0'' \<mapsto> PyInt 0, ''example_1'' \<mapsto> PyInt 1] ''Sure: 1''))
   \<and> (\<exists>out. result (call demo_deps
          (demo_scorer 2 (schema_client [''example_0'' \<mapsto> PyInt 0, ''example_1'' \<mapsto> PyInt 1] ''Sure: 1''))
          [1, 0] scenario_c_input) = Inr out
        \<and> map (\<lambda>r. r ''text'') out =
            [Some (PyStr ''dog ''), Some (PyStr ''cat ''), Some (PyStr ''cat cat '')])"
proof -
  let ?S = "demo_scorer 2 (schema_client [''example_0'' \<mapsto> PyInt 0, ''example_1'' \<mapsto> PyInt 1] ''Sure: 1'')"
  have o: "set [1, 0] = {0..<length scenario_c_batches}"
    by (auto simp: scenario_c_batches_def)
  note t = flatten_roundtrip[OF o, of demo_deps ?S "''cats''" scenario_c_input]
  have ok: "\<forall>b\<in>set scenario_c_batches. raised (query demo_deps ?S b ''cats'') = None"
    by (simp add: scenario_c_batches_def scenario_c_single scenario_c_good)
  then obtain out where r: "result (process_batches demo_deps ?S [1, 0] scenario_c_batches ''cats'') = Inr out"
    using t by blast
  then have "out = concat (map (\<lambda>b. map default' (batch_after (query demo_deps ?S b ''cats'')))
                            scenario_c_batches)"
    using t by blast
  then have "out =
      [default' \<lparr>text' = ''dog '', quantile = - 1, ground_truth = False, predicted = Some False\<rparr>,
       default' \<lparr>text' = ''cat '', quantile = 1, ground_truth = True, predicted = Some True\<rparr>,
       default' \<lparr>text' = ''cat cat '', quantile = 1, ground_truth = True, predicted = Some True\<rparr>]"
    by (simp add: scenario_c_batches_def scenario_c_single scenario_c_good)
  then have p: "result (process_batches demo_deps ?S [1, 0] scenario_c_batches ''cats'') =
      Inr [default' \<lparr>text' = ''dog '', quantile = - 1, ground_truth = False, predicted = Some False\<rparr>,
           default' \<lparr>text' = ''cat '', quantile = 1, ground_truth = True, predicted = Some True\<rparr>,
           default' \<lparr>text' = ''cat cat '', quantile = 1, ground_truth = True, predicted = Some True\<rparr>]"
    using r by (simp only:)
  have bs: "1 \<le> batch_size ?S" by (simp add: demo_scorer_def)
  have "\<exists>out. result (call demo_deps ?S [1, 0] scenario_c_input) = Inr out"
    using r by (simp add: call_def scenario_c_prepare) (simp add: scenario_c_input_def)
  then obtain out' where c: "result (call demo_deps ?S [1, 0] scenario_c_input) = Inr out'" ..
  note t' = t[THEN conjunct2, THEN conjunct2, rule_format, OF bs c]
  have tx: "map (\<lambda>r. r ''text'') out' =
              [Some (PyStr ''dog ''), Some (PyStr ''cat ''), Some (PyStr ''cat cat '')]"
    using t'
    by (simp add: assemble_eq prepare_samples_eq scenario_c_input_def demo_scorer_def
          demo_decode_def)
  have e: "\<exists>out. result (call demo_deps ?S [1, 0] scenario_c_input) = Inr out
        \<and> map (\<lambda>r. r ''text'') out =
            [Some (PyStr ''dog ''), Some (PyStr ''cat ''), Some (PyStr ''cat cat '')]"
    by (intro exI[of _ out'] conjI c tx)
  show ?thesis by (intro conjI o p bs e)
qed

text \<open>
  C8 (empty input). With a batch size other than 0 (the specification requires at least 1),
  a request with no random example and no activating example makes the scoring call return
  the empty sequence, and no backend call is made.
\<close>

theorem empty_input_scores_nothing:
  assumes "batch_size self \<noteq> 0"
      and "concat (test_examples scorer_in) = []"
      and "random_examples (record' scorer_in) = []"
  shows "result (call d self order scorer_in) = Inr []
         \<and> backend_calls (call d self order scorer_in) = []"
proof -
  have "length (assemble self (test_examples scorer_in) (random_examples (record' scorer_in))) =
          length (concat (test_examples scorer_in))"
    using assms(3) by (simp add: length_assemble length_concat)
  then have a: "assemble self (test_examples scorer_in) (random_examples (record' scorer_in)) = []"
    using assms(2) by simp
  have p: "prepare self (test_examples scorer_in) (random_examples (record' scorer_in)) = Inr []"
    using assms(1) by (simp add: prepare_def a py_range_def range_up.simps range_down.simps)
  show ?thesis by (simp add: call_def p process_batches_def gather_def first_raised_Nil)
qed

theorem empty_input_scores_nothing_witness:
  "batch_size (demo_scorer 10 (text_client ''1'')) \<noteq> 0
   \<and> result (call demo_deps (demo_scorer 10 (text_client ''1'')) []
        \<lparr>record' = \<lparr>random_examples = []\<rparr>, test_examples = [], explanation = ''cats''\<rparr>) = Inr []
   \<and> backend_calls (call demo_deps (demo_scorer 10 (text_client ''1'')) []
        \<lparr>record' = \<lparr>random_examples = []\<rparr>, test_examples = [], explanation = ''cats''\<rparr>) = []"
  using empty_input_scores_nothing[of "demo_scorer 10 (text_client ''1'')"
          "\<lparr>record' = \<lparr>random_examples = []\<rparr>, test_examples = [], explanation = ''cats''\<rparr>"
          demo_deps "[]"]
  by (simp add: demo_scorer_def)

text \<open>
  C3 (malformed structured response). As stated the claim fails: a batched answer that
  omits \<^verbatim>\<open>example_1\<close> makes the whole scoring call raise \<^verbatim>\<open>KeyError\<close>, for either
  completion order of the two batches, although the other batch was judged without error.
\<close>

theorem malformed_response_crashes_call:
  "result (call demo_deps (demo_scorer 2 (schema_client [''example_0'' \<mapsto> PyInt 1] ''Sure: 1''))
             [0, 1] scenario_c_input) = Inl KeyError
   \<and> result (call demo_deps (demo_scorer 2 (schema_client [''example_0'' \<mapsto> PyInt 1] ''Sure: 1''))
             [1, 0] scenario_c_input) = Inl KeyError
   \<and> raised (query demo_deps (demo_scorer 2 (schema_client [''example_0'' \<mapsto> PyInt 1] ''Sure: 1''))
             (scenario_c_batches ! 1) ''cats'') = None"
  by (simp add: call_def scenario_c_prepare process_batches_def gather_def Let_def
        scenario_c_batches_def scenario_c_single scenario_c_bad)
     (simp add: scenario_c_input_def scenario_c_single scenario_c_bad)

text \<open>
  C3, as the code has it. When the answer to a batch of more than one sample omits the
  field of some position \<open>k\<close>, \<^verbatim>\<open>query\<close> raises \<^verbatim>\<open>KeyError\<close>; nothing is assigned to
  the sample at position \<open>k\<close>, which is left as it was rather than given a default; and the
  exception is not contained: whatever the completion order, the scoring call that holds
  this batch raises instead of returning results.
\<close>

theorem malformed_response_fails:
  assumes "prepare self (test_examples scorer_in) (random_examples (record' scorer_in)) = Inr batches"
      and "batch \<in> set batches"
      and "1 < length batch"
      and "client self
             \<lparr>prompt = build_prompt d batch (explanation scorer_in) True,
              schema = Some (model_json_schema d (create_response_model d (length batch))),
              req_max_tokens = max_tokens self, req_temperature = temperature self\<rparr>
           = Inr (Structured selections)"
      and "k < length batch"
      and "selections (example_key k) = None"
      and "set order = {0..<length batches}"
  shows "raised (query d self batch (explanation scorer_in)) = Some KeyError
         \<and> batch_after (query d self batch (explanation scorer_in)) ! k = batch ! k
         \<and> k \<notin> fst ` set (writes (query d self batch (explanation scorer_in)))
         \<and> (\<exists>e. result (call d self order scorer_in) = Inl e)"
proof -
  let ?expl = "explanation scorer_in"
  have q: "query d self batch ?expl =
             \<lparr>raised = fst (set_predictions selections 0 batch),
              batch_after = fst (snd (set_predictions selections 0 batch)),
              writes = snd (snd (set_predictions selections 0 batch)),
              requests = [\<lparr>prompt = build_prompt d batch ?expl True,
                 schema = Some (model_json_schema d (create_response_model d (length batch))),
                 req_max_tokens = max_tokens self, req_temperature = temperature self\<rparr>]\<rparr>"
    using assms(3,4) by (simp add: query_batched_eq Let_def)
  have "selections (example_key (0 + k)) = None" using assms(6) by simp
  from set_predictions_missing[where sel = selections and i = 0, OF assms(5) this]
  have m: "fst (set_predictions selections 0 batch) = Some KeyError"
    "fst (snd (set_predictions selections 0 batch)) ! k = batch ! k"
    "k \<notin> fst ` set (snd (snd (set_predictions selections 0 batch)))"
    by simp_all
  have r: "raised (query d self batch ?expl) = Some KeyError" using q m(1) by simp
  have "\<not> (\<exists>out. result (process_batches d self order batches ?expl) = Inr out)"
  proof
    assume "\<exists>out. result (process_batches d self order batches ?expl) = Inr out"
    then obtain out where "result (process_batches d self order batches ?expl) = Inr out" ..
    from process_batches_Inr[OF assms(7) this] assms(2)
    have "raised (query d self batch ?expl) = None" by blast
    then show False using r by simp
  qed
  then have "\<exists>e. result (process_batches d self order batches ?expl) = Inl e"
    by (cases "result (process_batches d self order batches ?expl)") auto
  then have c: "\<exists>e. result (call d self order scorer_in) = Inl e"
    by (simp add: call_def assms(1))
  show ?thesis using q m r c by simp
qed

theorem malformed_response_fails_witness:
  "prepare (demo_scorer 2 (schema_client [''example_0'' \<mapsto> PyInt 1] ''Sure: 1''))
      (test_examples scenario_c_input) (random_examples (record' scenario_c_input))
     = Inr scenario_c_batches
   \<and> raised (query demo_deps (demo_scorer 2 (schema_client [''example_0'' \<mapsto> PyInt 1] ''Sure: 1''))
        (scenario_c_batches ! 0) ''cats'') = Some KeyError
   \<and> predicted (batch_after
        (query demo_deps (demo_scorer 2 (schema_client [''example_0'' \<mapsto> PyInt 1] ''Sure: 1''))
           (scenario_c_batches ! 0) ''cats'') ! 1) = None
   \<and> (\<exists>e. result (call demo_deps
               (demo_scorer 2 (schema_client [''example_0'' \<mapsto> PyInt 1] ''Sure: 1''))
               [1, 0] scenario_c_input) = Inl e)"
proof -
  let ?S = "demo_scorer 2 (schema_client [''example_0'' \<mapsto> PyInt 1] ''Sure: 1'')"
  let ?b = "scenario_c_batches ! 0"
  have p: "prepare ?S (test_examples scenario_c_input) (random_examples (record' scenario_c_input))
             = Inr scenario_c_batches" by (rule scenario_c_prepare)
  have i: "?b \<in> set scenario_c_batches" by (simp add: scenario_c_batches_def)
  have l: "1 < length ?b" by (simp add: scenario_c_batches_def)
  have c: "client ?S
             \<lparr>prompt = build_prompt demo_deps ?b (explanation scenario_c_input) True,
              schema = Some (model_json_schema demo_deps (create_response_model demo_deps (length ?b))),
              req_max_tokens = max_tokens ?S, req_temperature = temperature ?S\<rparr>
           = Inr (Structured [''example_0'' \<mapsto> PyInt 1])"
    by (simp add: demo_scorer_def schema_client_def)
  have k: "1 < length ?b" by (rule l)
  have s: "[''example_0'' \<mapsto> PyInt 1] (example_key 1) = None"
    using example_key_small by simp
  have o: "set [1, 0] = {0..<length scenario_c_batches}"
    by (auto simp: scenario_c_batches_def)
  have e: "explanation scenario_c_input = ''cats''" by (simp add: scenario_c_input_def)
  from malformed_response_fails[OF p i l c k s o]
  show ?thesis using p by (simp add: e scenario_c_batches_def)
qed

text \<open>
  C9 (the sample invariant). Every sample the assembler creates has \<^verbatim>\<open>predicted\<close> unset
  and a ground truth fixed by its quantile: quantile \<open>-1\<close> with ground truth false, or a
  quantile of at least 1 with ground truth true. A query leaves text, quantile and ground
  truth of every sample of its batch as they were; the batch it leaves behind is the input
  batch with the logged assignments to \<^verbatim>\<open>predicted\<close> replayed, the log names every
  position at most once and only positions of the batch, and it is empty unless the backend
  answered the query's request. For a batch size of at least 1, the records a scoring call
  returns carry the quantiles and ground truths the samples were created with.
\<close>

theorem sample_invariant:
  "(\<forall>s\<in>set (assemble self act inc).
       predicted s = None
       \<and> ((quantile s = - 1 \<and> \<not> ground_truth s) \<or> (1 \<le> quantile s \<and> ground_truth s)))
   \<and> map text' (batch_after (query d self batch expl)) = map text' batch
   \<and> map quantile (batch_after (query d self batch expl)) = map quantile batch
   \<and> map ground_truth (batch_after (query d self batch expl)) = map ground_truth batch
   \<and> batch_after (query d self batch expl) = apply_writes batch (writes (query d self batch expl))
   \<and> distinct (map fst (writes (query d self batch expl)))
   \<and> (\<forall>p\<in>set (map fst (writes (query d self batch expl))). p < length batch)
   \<and> (writes (query d self batch expl) \<noteq> [] \<longrightarrow>
         (\<exists>resp. client self (hd (requests (query d self batch expl))) = Inr resp))
   \<and> (1 \<le> batch_size self \<longrightarrow>
         (\<forall>out. result (call d self order scorer_in) = Inr out \<longrightarrow>
            map (\<lambda>r. r ''quantile'') out =
              map (\<lambda>s. Some (PyInt (quantile s)))
                (assemble self (test_examples scorer_in) (random_examples (record' scorer_in)))
            \<and> map (\<lambda>r. r ''ground_truth'') out =
              map (\<lambda>s. Some (PyBool (ground_truth s)))
                (assemble self (test_examples scorer_in) (random_examples (record' scorer_in)))))"
proof -
  have a: "\<forall>s\<in>set (assemble self act inc).
       predicted s = None
       \<and> ((quantile s = - 1 \<and> \<not> ground_truth s) \<or> (1 \<le> quantile s \<and> ground_truth s))"
    using assemble_labels by blast
  have w: "writes (query d self batch expl) \<noteq> [] \<longrightarrow>
         (\<exists>resp. client self (hd (requests (query d self batch expl))) = Inr resp)"
    using query_writes_after_response by blast
  have f: "1 \<le> batch_size self \<longrightarrow>
         (\<forall>out. result (call d self order scorer_in) = Inr out \<longrightarrow>
            map (\<lambda>r. r ''quantile'') out =
              map (\<lambda>s. Some (PyInt (quantile s)))
                (assemble self (test_examples scorer_in) (random_examples (record' scorer_in)))
            \<and> map (\<lambda>r. r ''ground_truth'') out =
              map (\<lambda>s. Some (PyBool (ground_truth s)))
                (assemble self (test_examples scorer_in) (random_examples (record' scorer_in))))"
    using call_fields by blast
  note fr = query_frame[of d self batch expl]
  note wo = query_writes_once[of d self batch expl]
  show ?thesis
    by (intro conjI a w f fr[THEN conjunct1] fr[THEN conjunct2, THEN conjunct1]
          fr[THEN conjunct2, THEN conjunct2] query_replay wo[THEN conjunct1] wo[THEN conjunct2])
qed

theorem sample_invariant_witness:
  "\<lparr>text' = ''cat '', quantile = 1, ground_truth = True, predicted = None\<rparr>
     \<in> set (assemble (demo_scorer 2 (schema_client [''example_0'' \<mapsto> PyInt 1] ''Sure: 1''))
          (test_examples scenario_c_input) (random_examples (record' scenario_c_input)))
   \<and> writes (query demo_deps (demo_scorer 2 (schema_client [''example_0'' \<mapsto> PyInt 1] ''Sure: 1''))
        (scenario_c_batches ! 0) ''cats'') = [(0, True)]
   \<and> map ground_truth (batch_after
        (query demo_deps (demo_scorer 2 (schema_client [''example_0'' \<mapsto> PyInt 1] ''Sure: 1''))
           (scenario_c_batches ! 0) ''cats'')) = [False, True]
   \<and> map quantile (batch_after
        (query demo_deps (demo_scorer 2 (schema_client [''example_0'' \<mapsto> PyInt 1] ''Sure: 1''))
           (scenario_c_batches ! 0) ''cats'')) = [- 1, 1]
   \<and> (\<exists>resp. client (demo_scorer 2 (schema_client [''example_0'' \<mapsto> PyInt 1] ''Sure: 1''))
        (hd (requests (query demo_deps
           (demo_scorer 2 (schema_client [''example_0'' \<mapsto> PyInt 1] ''Sure: 1''))
           (scenario_c_batches ! 0) ''cats''))) = Inr resp)
   \<and> 1 \<le> batch_size
         (demo_scorer 2 (schema_client [''example_0'' \<mapsto> PyInt 0, ''example_1'' \<mapsto> PyInt 1] ''Sure: 1''))
   \<and> (\<exists>out. result (call demo_deps
          (demo_scorer 2 (schema_client [''example_0'' \<mapsto> PyInt 0, ''example_1'' \<mapsto> PyInt 1] ''Sure: 1''))
          [0, 1] scenario_c_input) = Inr out
        \<and> map (\<lambda>r. r ''ground_truth'') out =
            [Some (PyBool False), Some (PyBool True), Some (PyBool True)])"
proof -
  let ?S = "demo_scorer 2 (schema_client [''example_0'' \<mapsto> PyInt 1] ''Sure: 1'')"
  let ?G = "demo_scorer 2 (schema_client [''example_0'' \<mapsto> PyInt 0, ''example_1'' \<mapsto> PyInt 1] ''Sure: 1'')"
  let ?b = "scenario_c_batches ! 0"
  let ?act = "test_examples scenario_c_input"
  let ?inc = "random_examples (record' scenario_c_input)"
  note t = sample_invariant[where self = ?S and act = ?act and inc = ?inc and d = demo_deps
      and batch = ?b and expl = "''cats''" and order = "[0, 1]" and scorer_in = scenario_c_input]
  note g = sample_invariant[where self = ?G and act = ?act and inc = ?inc and d = demo_deps
      and batch = ?b and expl = "''cats''" and order = "[0, 1]" and scorer_in = scenario_c_input]
  have m: "\<lparr>text' = ''cat '', quantile = 1, ground_truth = True, predicted = None\<rparr>
     \<in> set (assemble ?S ?act ?inc)"
    by (simp add: assemble_eq prepare_samples_eq scenario_c_input_def demo_scorer_def demo_decode_def)
  have w: "writes (query demo_deps ?S ?b ''cats'') = [(0, True)]"
    by (simp add: scenario_c_batches_def scenario_c_bad)
  note t' = t[THEN conjunct2, THEN conjunct2]
  have qu: "map quantile (batch_after (query demo_deps ?S ?b ''cats'')) = [- 1, 1]"
    using t'[THEN conjunct1] by (simp add: scenario_c_batches_def)
  have gt: "map ground_truth (batch_after (query demo_deps ?S ?b ''cats'')) = [False, True]"
    using t'[THEN conjunct2, THEN conjunct1] by (simp add: scenario_c_batches_def)
  note t'' = t'[THEN conjunct2, THEN conjunct2, THEN conjunct2, THEN conjunct2, THEN conjunct2]
  have r: "\<exists>resp. client ?S (hd (requests (query demo_deps ?S ?b ''cats''))) = Inr resp"
    using t''[THEN conjunct1] w by simp
  have bs: "1 \<le> batch_size ?G" by (simp add: demo_scorer_def)
  have "result (process_batches demo_deps ?G [0, 1] scenario_c_batches ''cats'') =
          Inr (concat (map (\<lambda>b. map default' (batch_after (query demo_deps ?G b ''cats'')))
                 scenario_c_batches))"
    by (rule process_batches_ok) (simp add: scenario_c_batches_def scenario_c_single scenario_c_good)
  then have "\<exists>out. result (call demo_deps ?G [0, 1] scenario_c_input) = Inr out"
    by (simp add: call_def scenario_c_prepare) (simp add: scenario_c_input_def)
  then obtain out where c: "result (call demo_deps ?G [0, 1] scenario_c_input) = Inr out" ..
  note g' = g[THEN conjunct2, THEN conjunct2, THEN conjunct2, THEN conjunct2, THEN conjunct2,
              THEN conjunct2, THEN conjunct2, THEN conjunct2, rule_format, OF bs c]
  have gf: "map (\<lambda>r. r ''ground_truth'') out =
          [Some (PyBool False), Some (PyBool True), Some (PyBool True)]"
    using g'[THEN conjunct2]
    by (simp add: assemble_eq prepare_samples_eq scenario_c_input_def)
  have o: "\<exists>out. result (call demo_deps ?G [0, 1] scenario_c_input) = Inr out
        \<and> map (\<lambda>r. r ''ground_truth'') out =
            [Some (PyBool False), Some (PyBool True), Some (PyBool True)]"
    by (intro exI[of _ out] conjI c gf)
  show ?thesis by (intro conjI m w gt qu r bs o)
qed

end
